theory Spec2Isabelle
  imports Main "HOL-Library.Word" "HOL-Library.Sublist"
begin

section \<open>Text, bytes and exceptions\<close>

text \<open>
  A Python \<open>str\<close> is a sequence of Unicode code points and a \<open>bytes\<close> object a
  sequence of octets. The two are kept apart, because the server decodes what it reads
  (\<open>decode('utf-8')\<close>, \<open>decode('latin-1')\<close>) and encodes what it writes
  (\<open>encode('utf-8')\<close>).
\<close>

type_synonym byte = "8 word"
type_synonym bytes = "byte list"
type_synonym str = "nat list"

text \<open>The exceptions the program can meet; all of them are subclasses of \<open>Exception\<close>.\<close>

datatype exn =
    ValueError
  | IndexError
  | UnicodeDecodeError
  | UnicodeEncodeError
  | FileNotFoundError
  | IsADirectoryError
  | PermissionError
  | ConnectionError

text \<open>A string literal of the source (ASCII) as a \<open>str\<close>, and as the bytes it is on the wire.\<close>

definition lit :: "string \<Rightarrow> str" where
  "lit s = map of_char s"

definition ascii :: "string \<Rightarrow> bytes" where
  "ascii s = map of_char s"

definition crlf :: str where
  "crlf = [13, 10]"

definition CRLF :: bytes where
  "CRLF = [13, 10]"

subsection \<open>The string methods the server calls\<close>

text \<open>
  \<open>s.split(sep)\<close>: cut at the leftmost occurrences of \<open>sep\<close>, which do not overlap.
  Python raises \<open>ValueError\<close> on an empty separator; every call of the source passes a
  literal (\<open>'\r\n'\<close>, \<open>' '\<close>), and an empty separator here cuts nowhere.
\<close>

function str_split :: "str \<Rightarrow> str \<Rightarrow> str list" where
  "str_split sep [] = [[]]"
| "str_split sep (c # cs) =
     (if sep \<noteq> [] \<and> prefix sep (c # cs)
      then [] # str_split sep (drop (length sep) (c # cs))
      else (case str_split sep cs of
              [] \<Rightarrow> [[c]]
            | w # ws \<Rightarrow> (c # w) # ws))"
  by pat_completeness auto
termination
  by (relation "measure (\<lambda>(sep, s). length s)") (auto simp: neq_Nil_conv)

text \<open>\<open>s.split(sep, 1)\<close>: cut at the first occurrence only.\<close>

fun str_split1 :: "str \<Rightarrow> str \<Rightarrow> str list" where
  "str_split1 sep [] = [[]]"
| "str_split1 sep (c # cs) =
     (if sep \<noteq> [] \<and> prefix sep (c # cs)
      then [[], drop (length sep) (c # cs)]
      else (case str_split1 sep cs of
              [] \<Rightarrow> [[c]]
            | w # ws \<Rightarrow> (c # w) # ws))"

text \<open>\<open>s.lstrip(chars)\<close>: drop every leading character that is one of \<open>chars\<close>.\<close>

definition str_lstrip :: "str \<Rightarrow> str \<Rightarrow> str" where
  "str_lstrip chars s = dropWhile (\<lambda>c. c \<in> set chars) s"

text \<open>\<open>sep in s\<close>: the substring test.\<close>

fun contains :: "str \<Rightarrow> str \<Rightarrow> bool" where
  "contains sep [] = (sep = [])"
| "contains sep (c # cs) = (prefix sep (c # cs) \<or> contains sep cs)"

text \<open>
  \<open>str(n)\<close> and the \<open>{n}\<close> of an f-string, for an integer: the decimal digits, with a
  sign. CPython refuses the conversion of an integer of more than 4300 decimal digits
  (\<open>sys.int_info.default_max_str_digits\<close>) and raises \<open>ValueError\<close>.
\<close>

function digits :: "nat \<Rightarrow> str" where
  "digits n = (if n < 10 then [48 + n] else digits (n div 10) @ [48 + n mod 10])"
  by pat_completeness auto
termination
  by (relation "measure id") auto

definition decimal :: "int \<Rightarrow> str" where
  "decimal i = (if i < 0 then 45 # digits (nat (- i)) else digits (nat i))"

definition str_of_int :: "int \<Rightarrow> exn + str" where
  "str_of_int i =
     (if 4300 < length (digits (nat \<bar>i\<bar>)) then Inl ValueError else Inr (decimal i))"

subsection \<open>Codecs\<close>

text \<open>
  \<open>s.encode('utf-8')\<close>. A lone surrogate (U+D800 to U+DFFF) raises
  \<open>UnicodeEncodeError\<close>. No Python \<open>str\<close> holds a value above U+10FFFF; the model
  answers with the same error there.
\<close>

definition encode_code_point :: "nat \<Rightarrow> exn + bytes" where
  "encode_code_point c =
     (if c < 0x80 then Inr [of_nat c]
      else if c < 0x800 then Inr [of_nat (0xC0 + c div 64), of_nat (0x80 + c mod 64)]
      else if 0xD800 \<le> c \<and> c \<le> 0xDFFF then Inl UnicodeEncodeError
      else if c < 0x10000 then
        Inr [of_nat (0xE0 + c div 4096), of_nat (0x80 + c div 64 mod 64),
             of_nat (0x80 + c mod 64)]
      else if c \<le> 0x10FFFF then
        Inr [of_nat (0xF0 + c div 262144), of_nat (0x80 + c div 4096 mod 64),
             of_nat (0x80 + c div 64 mod 64), of_nat (0x80 + c mod 64)]
      else Inl UnicodeEncodeError)"

fun utf8_encode :: "str \<Rightarrow> exn + bytes" where
  "utf8_encode [] = Inr []"
| "utf8_encode (c # cs) =
     (case encode_code_point c of
        Inl e \<Rightarrow> Inl e
      | Inr bs \<Rightarrow> (case utf8_encode cs of Inl e \<Rightarrow> Inl e | Inr r \<Rightarrow> Inr (bs @ r)))"

text \<open>\<open>b.decode('latin-1')\<close>: each byte is the code point of the same number; never fails.\<close>

definition latin1_decode :: "bytes \<Rightarrow> str" where
  "latin1_decode bs = map unat bs"

text \<open>
  \<open>b.decode('utf-8')\<close>, strict: the well-formed byte sequences of the Unicode standard
  and nothing else (no overlong form, no surrogate, nothing above U+10FFFF, no truncated
  sequence); anything else raises \<open>UnicodeDecodeError\<close>.
\<close>

definition continuation_count :: "byte \<Rightarrow> nat option" where
  "continuation_count b =
     (if b < 0x80 then Some 0
      else if 0xC2 \<le> b \<and> b \<le> 0xDF then Some 1
      else if 0xE0 \<le> b \<and> b \<le> 0xEF then Some 2
      else if 0xF0 \<le> b \<and> b \<le> 0xF4 then Some 3
      else None)"

definition second_byte_ok :: "byte \<Rightarrow> byte \<Rightarrow> bool" where
  "second_byte_ok b0 b1 =
     (if b0 = 0xE0 then 0xA0 \<le> b1 \<and> b1 \<le> 0xBF
      else if b0 = 0xED then 0x80 \<le> b1 \<and> b1 \<le> 0x9F
      else if b0 = 0xF0 then 0x90 \<le> b1 \<and> b1 \<le> 0xBF
      else if b0 = 0xF4 then 0x80 \<le> b1 \<and> b1 \<le> 0x8F
      else 0x80 \<le> b1 \<and> b1 \<le> 0xBF)"

definition lead_bits :: "byte \<Rightarrow> nat \<Rightarrow> nat" where
  "lead_bits b0 k =
     (if k = 0 then unat b0
      else if k = 1 then unat b0 - 0xC0
      else if k = 2 then unat b0 - 0xE0
      else unat b0 - 0xF0)"

function utf8_decode :: "bytes \<Rightarrow> exn + str" where
  "utf8_decode [] = Inr []"
| "utf8_decode (b0 # bs) =
     (case continuation_count b0 of
        None \<Rightarrow> Inl UnicodeDecodeError
      | Some k \<Rightarrow>
          (let tail = take k bs in
           if length tail < k
              \<or> (\<exists>b \<in> set tail. \<not> (0x80 \<le> b \<and> b \<le> 0xBF))
              \<or> (tail \<noteq> [] \<and> \<not> second_byte_ok b0 (hd tail))
           then Inl UnicodeDecodeError
           else (case utf8_decode (drop k bs) of
                   Inl e \<Rightarrow> Inl e
                 | Inr r \<Rightarrow>
                     Inr (foldl (\<lambda>acc b. acc * 64 + (unat b - 0x80)) (lead_bits b0 k) tail # r))))"
  by pat_completeness auto
termination
  by (relation "measure length") auto

section \<open>The server\<close>

text \<open>
  Each function of \<open>main.py\<close> that takes part in handling a request, under its own
  name. A function that can raise returns a sum, the exception on the left. The calls
  of \<open>print\<close> are taken to succeed; what they write is read by nothing and is left
  out. \<open>start_server\<close> sets the listening socket up and has no part in what
  follows.
\<close>

subsection \<open>Dictionaries\<close>

text \<open>
  A Python \<open>dict\<close> keeps its entries in insertion order, one entry per key.
  \<open>d[k] = v\<close> overwrites the value of a key already present, in place, and appends a
  new key at the end.
\<close>

type_synonym headers = "(str \<times> str) list"

fun dict_set :: "str \<Rightarrow> str \<Rightarrow> headers \<Rightarrow> headers" where
  "dict_set k v [] = [(k, v)]"
| "dict_set k v ((k', v') # d) =
     (if k' = k then (k, v) # d else (k', v') # dict_set k v d)"

subsection \<open>\<open>parse_request\<close>\<close>

definition space :: str where
  "space = [32]"

definition colon_space :: str where
  "colon_space = [58, 32]"

text \<open>
  The loop over \<open>lines[1:]\<close>: stop at the first empty line; a line that does not unpack
  into name and value raises \<open>ValueError\<close>.
\<close>

fun parse_headers :: "str list \<Rightarrow> headers \<Rightarrow> exn + headers" where
  "parse_headers [] hs = Inr hs"
| "parse_headers (line # rest) hs =
     (if line = [] then Inr hs
      else (case str_split1 colon_space line of
              [header_name, header_value] \<Rightarrow>
                parse_headers rest (dict_set header_name header_value hs)
            | _ \<Rightarrow> Inl ValueError))"

definition parse_request :: "str \<Rightarrow> exn + (str \<times> str \<times> str \<times> headers)" where
  "parse_request request_data =
     (case str_split crlf request_data of
        [] \<Rightarrow> Inl IndexError
      | request_line # more_lines \<Rightarrow>
          (case str_split space request_line of
             [method, path, http_version] \<Rightarrow>
               (case parse_headers more_lines [] of
                  Inl e \<Rightarrow> Inl e
                | Inr hs \<Rightarrow> Inr (method, path, http_version, hs))
           | _ \<Rightarrow> Inl ValueError))"

subsection \<open>\<open>mimetypes.guess_type\<close>\<close>

text \<open>
  \<open>get_content_type\<close> is one call of the standard library, and what it answers is
  what that call does. This is \<open>MimeTypes.guess_type\<close> of CPython 3.11 with the
  functions it calls (\<open>urllib.parse.urlparse\<close>, \<open>posixpath.splitext\<close>), on a POSIX
  system, for a \<open>str\<close>. Three things are taken as given: the table of types, which
  the library fills from its defaults and from the system's files; the lower case of a
  character that is not ASCII (Python's \<open>str.lower\<close> maps the ASCII letters, leaves
  the other ASCII characters alone, and follows Unicode elsewhere); and the two checks
  of a network location that \<open>urlsplit\<close> hands to \<open>ipaddress\<close> and
  \<open>unicodedata\<close>, each of which may raise \<open>ValueError\<close>.
\<close>

record library =
  types_map :: "str \<Rightarrow> str option"
  unicode_lower :: "str \<Rightarrow> nat \<Rightarrow> str"
  check_bracketed_host :: "str \<Rightarrow> exn + unit"
  checknetloc_nfkc :: "str \<Rightarrow> exn + unit"

definition is_ascii_alpha :: "nat \<Rightarrow> bool" where
  "is_ascii_alpha c = ((65 \<le> c \<and> c \<le> 90) \<or> (97 \<le> c \<and> c \<le> 122))"

text \<open>\<open>scheme_chars\<close>: the ASCII letters and digits, \<open>+\<close>, \<open>-\<close> and \<open>.\<close>.\<close>

definition is_scheme_char :: "nat \<Rightarrow> bool" where
  "is_scheme_char c = (is_ascii_alpha c \<or> (48 \<le> c \<and> c \<le> 57) \<or> c = 43 \<or> c = 45 \<or> c = 46)"

definition ascii_lower :: "nat \<Rightarrow> nat" where
  "ascii_lower c = (if 65 \<le> c \<and> c \<le> 90 then c + 32 else c)"

text \<open>\<open>s.lower()\<close>: character by character; position \<open>i\<close> of \<open>s\<close> is given with \<open>s\<close>.\<close>

definition str_lower :: "library \<Rightarrow> str \<Rightarrow> str" where
  "str_lower lib s =
     concat (map (\<lambda>i. if s ! i < 128 then [ascii_lower (s ! i)] else unicode_lower lib s i)
               [0..<length s])"

text \<open>
  \<open>urlsplit\<close>, first step: leading characters up to U+0020 (controls and the space) are stripped, and
  every tab, CR and LF is removed.
\<close>

definition url_clean :: "str \<Rightarrow> str" where
  "url_clean url = filter (\<lambda>c. c \<noteq> 9 \<and> c \<noteq> 13 \<and> c \<noteq> 10) (dropWhile (\<lambda>c. c \<le> 32) url)"

text \<open>
  The scheme: what stands before the first colon, when that is not empty, starts with
  an ASCII letter and holds scheme characters only; it is taken in lower case.
\<close>

definition split_scheme :: "str \<Rightarrow> str \<times> str" where
  "split_scheme url =
     (let candidate = takeWhile (\<lambda>c. c \<noteq> 58) url
      in if 58 \<in> set url \<and> candidate \<noteq> [] \<and> is_ascii_alpha (hd url)
            \<and> list_all is_scheme_char candidate
         then (map ascii_lower candidate, drop (Suc (length candidate)) url)
         else ([], url))"

text \<open>\<open>_splitnetloc(url, 2)\<close>: after \<open>//\<close>, up to the first of \<open>/\<close>, \<open>?\<close> and \<open>#\<close>.\<close>

definition splitnetloc :: "str \<Rightarrow> str \<times> str" where
  "splitnetloc url =
     (let netloc = takeWhile (\<lambda>c. c \<noteq> 47 \<and> c \<noteq> 63 \<and> c \<noteq> 35) (drop 2 url)
      in (netloc, drop (2 + length netloc) url))"

text \<open>\<open>netloc.partition('[')[2].partition(']')[0]\<close>.\<close>

definition bracketed_host :: "str \<Rightarrow> str" where
  "bracketed_host netloc = takeWhile (\<lambda>c. c \<noteq> 93) (drop 1 (dropWhile (\<lambda>c. c \<noteq> 91) netloc))"

definition checknetloc :: "library \<Rightarrow> str \<Rightarrow> exn + unit" where
  "checknetloc lib netloc =
     (if netloc = [] \<or> list_all (\<lambda>c. c < 128) netloc then Inr () else checknetloc_nfkc lib netloc)"

text \<open>The fragment is cut at the first \<open>#\<close>, then the query at the first \<open>?\<close>.\<close>

definition strip_query_fragment :: "str \<Rightarrow> str" where
  "strip_query_fragment url = takeWhile (\<lambda>c. c \<noteq> 63) (takeWhile (\<lambda>c. c \<noteq> 35) url)"

text \<open>\<open>urlsplit\<close>: the scheme, the network location and the path; the rest is not used.\<close>

definition urlsplit :: "library \<Rightarrow> str \<Rightarrow> exn + (str \<times> str \<times> str)" where
  "urlsplit lib url =
     (case split_scheme (url_clean url) of
        (scheme, rest) \<Rightarrow>
          if take 2 rest = [47, 47] then
            (case splitnetloc rest of
               (netloc, rest') \<Rightarrow>
                 if (91 \<in> set netloc \<and> 93 \<notin> set netloc) \<or> (93 \<in> set netloc \<and> 91 \<notin> set netloc)
                 then Inl ValueError
                 else (case (if 91 \<in> set netloc \<and> 93 \<in> set netloc
                             then check_bracketed_host lib (bracketed_host netloc)
                             else Inr ()) of
                         Inl x \<Rightarrow> Inl x
                       | Inr u \<Rightarrow>
                           (case checknetloc lib netloc of
                              Inl x \<Rightarrow> Inl x
                            | Inr u' \<Rightarrow> Inr (scheme, netloc, strip_query_fragment rest'))))
          else Inr (scheme, [], strip_query_fragment rest))"

definition uses_params :: "str list" where
  "uses_params =
     [[], lit ''ftp'', lit ''hdl'', lit ''prospero'', lit ''http'', lit ''imap'', lit ''https'',
      lit ''shttp'', lit ''rtsp'', lit ''rtsps'', lit ''rtspu'', lit ''sip'', lit ''sips'',
      lit ''mms'', lit ''sftp'', lit ''tel'']"

text \<open>What follows the last \<open>/\<close> of a path (the whole path when it has none).\<close>

definition last_component :: "str \<Rightarrow> str" where
  "last_component p = rev (takeWhile (\<lambda>c. c \<noteq> 47) (rev p))"

text \<open>\<open>_splitparams\<close>: the parameters start at the first \<open>;\<close> of the last component.\<close>

definition splitparams :: "str \<Rightarrow> str" where
  "splitparams url =
     take (length url - length (last_component url)) url
       @ takeWhile (\<lambda>c. c \<noteq> 59) (last_component url)"

text \<open>\<open>urlparse\<close>: the scheme and the path.\<close>

definition urlparse :: "library \<Rightarrow> str \<Rightarrow> exn + (str \<times> str)" where
  "urlparse lib url =
     (case urlsplit lib url of
        Inl x \<Rightarrow> Inl x
      | Inr (scheme, netloc, path) \<Rightarrow>
          Inr (scheme, if scheme \<in> set uses_params \<and> 59 \<in> set path then splitparams path else path))"

text \<open>
  \<open>posixpath.splitext\<close>: the extension runs from the last dot of the last component
  to the end, unless nothing but dots stands before that dot in the component.
\<close>

definition splitext :: "str \<Rightarrow> str \<times> str" where
  "splitext p =
     (let name = last_component p;
          stem = rev (drop 1 (dropWhile (\<lambda>c. c \<noteq> 46) (rev name)));
          ext = drop (length stem) name
      in if 46 \<in> set name \<and> list_ex (\<lambda>c. c \<noteq> 46) stem
         then (take (length p - length ext) p, ext)
         else (p, []))"

definition suffix_map :: "(str \<times> str) list" where
  "suffix_map =
     [(lit ''.svgz'', lit ''.svg.gz''), (lit ''.tgz'', lit ''.tar.gz''),
      (lit ''.taz'', lit ''.tar.gz''), (lit ''.tz'', lit ''.tar.gz''),
      (lit ''.tbz2'', lit ''.tar.bz2''), (lit ''.txz'', lit ''.tar.xz'')]"

definition encodings_map :: "(str \<times> str) list" where
  "encodings_map =
     [(lit ''.gz'', lit ''gzip''), (lit ''.Z'', lit ''compress''), (lit ''.bz2'', lit ''bzip2''),
      (lit ''.xz'', lit ''xz''), (lit ''.br'', lit ''br'')]"

text \<open>The type of a \<open>data:\<close> URL is its media type, \<open>text/plain\<close> by default.\<close>

definition data_url_type :: "str \<Rightarrow> str option" where
  "data_url_type url =
     (if 44 \<notin> set url then None
      else (let type = takeWhile (\<lambda>c. c \<noteq> 59) (takeWhile (\<lambda>c. c \<noteq> 44) url)
            in if 61 \<in> set type \<or> 47 \<notin> set type then Some (lit ''text/plain'') else Some type))"

text \<open>
  The loop over \<open>suffix_map\<close>: an extension that stands for two (\<open>.tgz\<close> for
  \<open>.tar.gz\<close>) is written out and the path split again. It ends after one turn at
  most, since what it writes out ends in an extension the table does not hold.
\<close>

function resolve_suffix :: "library \<Rightarrow> str \<times> str \<Rightarrow> str \<times> str" where
  "resolve_suffix lib (base, ext) =
     (case map_of suffix_map (str_lower lib ext) of
        None \<Rightarrow> (base, ext)
      | Some full \<Rightarrow> resolve_suffix lib (splitext (base @ full)))"
  by pat_completeness auto
termination
proof (relation "measure (\<lambda>(lib, base, ext). if map_of suffix_map (str_lower lib ext) = None then 0 else 1)")
  show "wf (measure (\<lambda>(lib, base, ext). if map_of suffix_map (str_lower lib ext) = None then 0 else (1::nat)))"
    by simp
next
  fix lib :: library and base ext full :: str
  assume hit: "map_of suffix_map (str_lower lib ext) = Some full"
  have comp: "last_component (b @ t) = last_component b @ t" if "47 \<notin> set t" for b t :: str
  proof -
    have "takeWhile (\<lambda>c. c \<noteq> 47) (rev t @ rev b) = rev t @ takeWhile (\<lambda>c. c \<noteq> 47) (rev b)"
      using that by (intro takeWhile_append2) auto
    then show ?thesis by (simp add: last_component_def)
  qed
  have cut: "splitext (b @ 46 # x) = (b, 46 # x)"
    if "46 \<notin> set x" "47 \<notin> set x" "list_ex (\<lambda>c. c \<noteq> 46) (last_component b)" for b x :: str
  proof -
    have name: "last_component (b @ 46 # x) = last_component b @ 46 # x"
      using that(2) by (simp add: comp)
    have dw: "dropWhile (\<lambda>c. c \<noteq> 46) (rev x @ 46 # rev (last_component b))
                = 46 # rev (last_component b)"
      using that(1) by (subst dropWhile_append2) auto
    show ?thesis
      using that(3) by (simp add: splitext_def name dw Let_def)
  qed
  have two: "snd (splitext (base @ 46 # w @ 46 # x)) = 46 # x"
    if "46 \<notin> set x" "47 \<notin> set x" "47 \<notin> set w" "w \<noteq> []" "46 \<notin> set w" for w x :: str
  proof -
    have "last_component (base @ 46 # w) = last_component base @ 46 # w"
      using that(3) by (simp add: comp)
    moreover have "list_ex (\<lambda>c. c \<noteq> 46) w"
      using that(4,5) by (cases w) auto
    ultimately have "list_ex (\<lambda>c. c \<noteq> 46) (last_component (base @ 46 # w))"
      by simp
    from cut [OF that(1,2) this] show ?thesis by simp
  qed
  from hit have "full \<in> {lit ''.svg.gz'', lit ''.tar.gz'', lit ''.tar.bz2'', lit ''.tar.xz''}"
    by (auto simp add: suffix_map_def split: if_splits)
  then have "snd (splitext (base @ full)) \<in> {lit ''.gz'', lit ''.bz2'', lit ''.xz''}"
    using two [of "lit ''gz''" "lit ''svg''"] two [of "lit ''gz''" "lit ''tar''"]
      two [of "lit ''bz2''" "lit ''tar''"] two [of "lit ''xz''" "lit ''tar''"]
    by (auto simp add: lit_def)
  moreover have "map_of suffix_map (str_lower lib (lit ''.gz'')) = None"
    "map_of suffix_map (str_lower lib (lit ''.bz2'')) = None"
    "map_of suffix_map (str_lower lib (lit ''.xz'')) = None"
    by code_simp+
  ultimately have "map_of suffix_map (str_lower lib (snd (splitext (base @ full)))) = None"
    by auto
  with hit show "((lib, splitext (base @ full)), (lib, base, ext))
          \<in> measure (\<lambda>(lib, base, ext). if map_of suffix_map (str_lower lib ext) = None then 0 else 1)"
    by (cases "splitext (base @ full)") simp
qed

text \<open>
  The type of a path: the extension, a double extension written out, an encoding's
  extension (\<open>.gz\<close>) set aside for the one before it, then the table in lower case.
\<close>

definition guess_file_type :: "library \<Rightarrow> str \<Rightarrow> str option" where
  "guess_file_type lib url =
     (case resolve_suffix lib (splitext url) of
        (base, ext) \<Rightarrow>
          types_map lib
            (str_lower lib (if map_of encodings_map ext \<noteq> None then snd (splitext base) else ext)))"

text \<open>
  \<open>guess_type\<close>: with a scheme of two characters or more the type is that of the
  URL's path (of the media type for \<open>data\<close>), otherwise that of the argument as it
  is (\<open>os.path.splitdrive\<close> takes nothing away on POSIX).
\<close>

definition guess_type :: "library \<Rightarrow> str \<Rightarrow> exn + str option" where
  "guess_type lib url =
     (case urlparse lib url of
        Inl x \<Rightarrow> Inl x
      | Inr (scheme, path) \<Rightarrow>
          if 1 < length scheme then
            (if scheme = lit ''data'' then Inr (data_url_type path)
             else Inr (guess_file_type lib path))
          else Inr (guess_file_type lib url))"

subsection \<open>\<open>get_content_type\<close>\<close>

text \<open>
  The file system and the library are outside the program; the server reaches them
  through three calls. \<open>os.path.exists(path)\<close> is the library's
  \<open>genericpath.exists\<close>: it calls \<open>os.stat(path)\<close> and answers \<open>False\<close> when that
  raises (an \<open>OSError\<close> or a \<open>ValueError\<close>, which is all \<open>os.stat\<close> raises on a
  \<open>str\<close>), so the check itself never raises. \<open>open(path, 'rb')\<close> with \<open>f.read()\<close>
  stands in the \<open>try\<close> of \<open>serve_static_file\<close> and may raise, and so may
  \<open>mimetypes.guess_type\<close>.
\<close>

record env =
  os_stat :: "str \<Rightarrow> exn + unit"
  open_read :: "str \<Rightarrow> exn + bytes"
  mime_library :: library

definition os_path_exists :: "env \<Rightarrow> str \<Rightarrow> bool" where
  "os_path_exists e path = (case os_stat e path of Inl x \<Rightarrow> False | Inr u \<Rightarrow> True)"

text \<open>
  The calls on a file system as Python and the operating system define them. A path
  names nothing, a regular file with its content, a directory, a file the process may
  not read, a file that is there when \<open>os.path.exists\<close> looks and gone when \<open>open\<close>
  comes, or something the process may not even look at (no search permission on a
  directory above it: \<open>os.stat\<close> raises \<open>PermissionError\<close>). \<open>open\<close> raises on
  everything but a readable regular file.
\<close>

datatype fs_entry = Absent | RegularFile bytes | Directory | Unreadable | Vanishing | Inaccessible

definition file_system :: "(str \<Rightarrow> fs_entry) \<Rightarrow> library \<Rightarrow> env" where
  "file_system files types =
     \<lparr>os_stat =
        (\<lambda>path. case files path of
                   Absent \<Rightarrow> Inl FileNotFoundError
                 | Inaccessible \<Rightarrow> Inl PermissionError
                 | _ \<Rightarrow> Inr ()),
      open_read =
        (\<lambda>path. case files path of
                   RegularFile content \<Rightarrow> Inr content
                 | Directory \<Rightarrow> Inl IsADirectoryError
                 | Unreadable \<Rightarrow> Inl PermissionError
                 | Vanishing \<Rightarrow> Inl FileNotFoundError
                 | Inaccessible \<Rightarrow> Inl PermissionError
                 | Absent \<Rightarrow> Inl FileNotFoundError),
      mime_library = types\<rparr>"

text \<open>
  \<open>content_type, _ = mimetypes.guess_type(file_path)\<close> and
  \<open>content_type or 'application/octet-stream'\<close>: \<open>None\<close> and the empty string are
  falsy.
\<close>

definition get_content_type :: "env \<Rightarrow> str \<Rightarrow> exn + str" where
  "get_content_type e file_path =
     (case guess_type (mime_library e) file_path of
        Inl x \<Rightarrow> Inl x
      | Inr None \<Rightarrow> Inr (lit ''application/octet-stream'')
      | Inr (Some content_type) \<Rightarrow>
          Inr (if content_type = [] then lit ''application/octet-stream'' else content_type))"

subsection \<open>\<open>generate_response\<close>\<close>

definition status_messages :: "(int \<times> str) list" where
  "status_messages =
     [(200, lit ''OK''), (404, lit ''Not Found''), (500, lit ''Internal Server Error'')]"

definition header_lines :: "headers \<Rightarrow> str" where
  "header_lines hs =
     foldl (\<lambda>acc (header_name, header_value). acc @ header_name @ colon_space @ header_value @ crlf)
       [] hs"

definition generate_response :: "int \<Rightarrow> headers \<Rightarrow> str \<Rightarrow> exn + bytes" where
  "generate_response status_code hs body =
     (let status_message =
            (case map_of status_messages status_code of
               Some m \<Rightarrow> m
             | None \<Rightarrow> lit ''Unknown Status'')
      in case str_of_int status_code of
           Inl x \<Rightarrow> Inl x
         | Inr code_text \<Rightarrow>
             (let response_line = lit ''HTTP/1.1 '' @ code_text @ space @ status_message @ crlf;
                  response = response_line @ header_lines hs @ crlf @ body
              in utf8_encode response))"

subsection \<open>The client socket\<close>

text \<open>
  What the program can see of a connection: what \<open>recv\<close> will find (an error, or the
  bytes the client has sent), whether each coming \<open>sendall\<close> will go through (past the
  end of the script every one does), what has been delivered, and whether the socket is
  closed. A \<open>sendall\<close> that raises delivers nothing here.
\<close>

record client_socket =
  pending :: "exn + bytes"
  send_script :: "bool list"
  sent :: "bytes list"
  closed :: bool

definition recv :: "client_socket \<Rightarrow> nat \<Rightarrow> exn + bytes" where
  "recv s bufsize = (case pending s of Inl e \<Rightarrow> Inl e | Inr data \<Rightarrow> Inr (take bufsize data))"

definition sendall :: "client_socket \<Rightarrow> bytes \<Rightarrow> client_socket \<times> (exn + unit)" where
  "sendall s data =
     (case send_script s of
        [] \<Rightarrow> (s\<lparr>sent := sent s @ [data]\<rparr>, Inr ())
      | ok # rest \<Rightarrow>
          if ok then (s\<lparr>send_script := rest, sent := sent s @ [data]\<rparr>, Inr ())
          else (s\<lparr>send_script := rest\<rparr>, Inl ConnectionError))"

definition close :: "client_socket \<Rightarrow> client_socket" where
  "close s = s\<lparr>closed := True\<rparr>"

text \<open>
  \<open>response = generate_response(...)\<close> followed by \<open>client_socket.sendall(response)\<close>:
  nothing is sent when building the response raises.
\<close>

definition send_response :: "client_socket \<Rightarrow> exn + bytes \<Rightarrow> client_socket \<times> (exn + unit)" where
  "send_response s r = (case r of Inl e \<Rightarrow> (s, Inl e) | Inr response \<Rightarrow> sendall s response)"

subsection \<open>\<open>serve_static_file\<close>\<close>

text \<open>The body of the \<open>try\<close>.\<close>

definition serve_static_file_try :: "env \<Rightarrow> client_socket \<Rightarrow> str \<Rightarrow> client_socket \<times> (exn + unit)" where
  "serve_static_file_try e s path =
     (if os_path_exists e path then
        (case open_read e path of
           Inl x \<Rightarrow> (s, Inl x)
         | Inr content \<Rightarrow>
             (case get_content_type e path of
                Inl x \<Rightarrow> (s, Inl x)
              | Inr content_type \<Rightarrow>
                  (case str_of_int (int (length content)) of
                     Inl x \<Rightarrow> (s, Inl x)
                   | Inr content_length \<Rightarrow>
                       (let hs = [(lit ''Content-Type'', content_type),
                                  (lit ''Content-Length'', content_length)]
                        in send_response s (generate_response 200 hs (latin1_decode content))))))
      else send_response s (generate_response 404 [] (lit ''404 Not Found'')))"

text \<open>The \<open>try\<close> with its \<open>except Exception\<close>; an exception raised in the handler leaves the function.\<close>

definition serve_static_file :: "env \<Rightarrow> client_socket \<Rightarrow> str \<Rightarrow> client_socket \<times> (exn + unit)" where
  "serve_static_file e s path =
     (case serve_static_file_try e s path of
        (s', Inr u) \<Rightarrow> (s', Inr u)
      | (s', Inl x) \<Rightarrow>
          send_response s' (generate_response 500 [] (lit ''500 Internal Server Error'')))"

subsection \<open>\<open>handle_client\<close>\<close>

text \<open>
  The body of the \<open>try\<close>. On the path \<open>/\<close> the response is built and bound to a local
  variable; the branch holds no \<open>sendall\<close>.
\<close>

definition handle_client_try :: "env \<Rightarrow> client_socket \<Rightarrow> client_socket \<times> (exn + unit)" where
  "handle_client_try e s =
     (case recv s 1024 of
        Inl x \<Rightarrow> (s, Inl x)
      | Inr raw \<Rightarrow>
          (case utf8_decode raw of
             Inl x \<Rightarrow> (s, Inl x)
           | Inr request_data \<Rightarrow>
               (case parse_request request_data of
                  Inl x \<Rightarrow> (s, Inl x)
                | Inr (method, path, http_version, hs) \<Rightarrow>
                    if path = lit ''/'' then
                      (let response_body = lit ''<html><body><h1>Hello, world!</h1></body></html>''
                       in case str_of_int (int (length response_body)) of
                            Inl x \<Rightarrow> (s, Inl x)
                          | Inr content_length \<Rightarrow>
                              (let hs' = [(lit ''Content-Type'', lit ''text/html''),
                                          (lit ''Content-Length'', content_length)]
                               in case generate_response 200 hs' response_body of
                                    Inl x \<Rightarrow> (s, Inl x)
                                  | Inr response \<Rightarrow> (s, Inr ())))
                    else serve_static_file e s (str_lstrip (lit ''/'') path))))"

text \<open>
  \<open>try\<close>, \<open>except Exception\<close>, \<open>finally\<close>: the socket is closed on every way out, and an
  exception raised in the handler goes on to the caller.
\<close>

definition handle_client :: "env \<Rightarrow> client_socket \<Rightarrow> client_socket \<times> (exn + unit)" where
  "handle_client e s =
     (case (case handle_client_try e s of
              (s', Inr u) \<Rightarrow> (s', Inr u)
            | (s', Inl x) \<Rightarrow>
                send_response s' (generate_response 500 [] (lit ''500 Internal Server Error''))) of
        (s'', r) \<Rightarrow> (close s'', r))"

subsection \<open>The accept loop\<close>

text \<open>
  \<open>accept\<close> yields the next connection or raises; the list holds what the successive
  calls will yield, and when nothing is left the server stays blocked in \<open>accept\<close>.
  The \<open>try\<close> is around the \<open>while\<close>, so an exception from \<open>accept\<close> or out of
  \<open>handle_client\<close> ends the loop; the \<open>finally\<close> then closes the listening socket.
  The result is the connections handled, as they were left, and how the server ended.
\<close>

datatype server_outcome = Listening | Terminated exn

fun main_loop :: "env \<Rightarrow> (exn + client_socket) list \<Rightarrow> client_socket list \<times> server_outcome" where
  "main_loop e [] = ([], Listening)"
| "main_loop e (Inl x # rest) = ([], Terminated x)"
| "main_loop e (Inr client_socket # rest) =
     (case handle_client e client_socket of
        (s, Inl x) \<Rightarrow> ([s], Terminated x)
      | (s, Inr u) \<Rightarrow>
          (case main_loop e rest of (handled, outcome) \<Rightarrow> (s # handled, outcome)))"

text \<open>A fresh connection on which the client has sent \<open>data\<close> and every send goes through.\<close>

definition connection :: "bytes \<Rightarrow> client_socket" where
  "connection data = \<lparr>pending = Inr data, send_script = [], sent = [], closed = False\<rparr>"

section \<open>The vocabulary of the properties\<close>

text \<open>
  A text that \<open>encode('utf-8')\<close> accepts, and the bytes it then gives. Every Python
  \<open>str\<close> without a lone surrogate is such a text.
\<close>

definition encodable :: "str \<Rightarrow> bool" where
  "encodable s = list_all (\<lambda>c. c \<le> 0x10FFFF \<and> \<not> (0xD800 \<le> c \<and> c \<le> 0xDFFF)) s"

definition code_point_bytes :: "nat \<Rightarrow> bytes" where
  "code_point_bytes c = (case encode_code_point c of Inl e \<Rightarrow> [] | Inr bs \<Rightarrow> bs)"

definition utf8_bytes :: "str \<Rightarrow> bytes" where
  "utf8_bytes s = concat (map code_point_bytes s)"

text \<open>An integer that \<open>str\<close> and an f-string accept: at most 4300 decimal digits.\<close>

definition formattable :: "int \<Rightarrow> bool" where
  "formattable i = (length (digits (nat \<bar>i\<bar>)) \<le> 4300)"

definition headers_encodable :: "headers \<Rightarrow> bool" where
  "headers_encodable hs = list_all (\<lambda>(n, v). encodable n \<and> encodable v) hs"

text \<open>
  One header on the wire (name, colon and space, value, end of line) and as a line of
  text.
\<close>

definition header_bytes :: "str \<times> str \<Rightarrow> bytes" where
  "header_bytes h = utf8_bytes (fst h) @ ascii '': '' @ utf8_bytes (snd h) @ CRLF"

definition header_line :: "str \<times> str \<Rightarrow> str" where
  "header_line h = fst h @ colon_space @ snd h"

text \<open>
  A header that the parser can take apart again: no colon followed by a space in the
  name, no CR LF in the name or in the value.
\<close>

definition separable :: "str \<times> str \<Rightarrow> bool" where
  "separable h = (\<not> contains colon_space (fst h) \<and> \<not> contains crlf (fst h) \<and> \<not> contains crlf (snd h))"

text \<open>The reason phrases as the specification lists them.\<close>

definition spec_reason_phrase :: "int \<Rightarrow> string" where
  "spec_reason_phrase code =
     (if code = 200 then ''OK''
      else if code = 404 then ''Not Found''
      else if code = 500 then ''Internal Server Error''
      else ''Unknown Status'')"

text \<open>
  Stripping a single leading slash, as the specification words the routing of a path to
  the static file handler.
\<close>

definition spec_strip_single_slash :: "str \<Rightarrow> str" where
  "spec_strip_single_slash p = (case p of [] \<Rightarrow> [] | c # r \<Rightarrow> if c = 47 then r else p)"

text \<open>
  A request text is malformed when its first line does not split into exactly three
  tokens at single spaces, or when a line after it and before the first empty line holds
  no colon followed by a space.
\<close>

definition malformed :: "str \<Rightarrow> bool" where
  "malformed request_data =
     (case str_split crlf request_data of
        [] \<Rightarrow> True
      | request_line # more_lines \<Rightarrow>
          length (str_split space request_line) \<noteq> 3
          \<or> list_ex (\<lambda>l. \<not> contains colon_space l) (takeWhile (\<lambda>l. l \<noteq> []) more_lines))"

text \<open>The two error responses and the greeting page, as they are on the wire.\<close>

definition response_404 :: bytes where
  "response_404 = ascii ''HTTP/1.1 404 Not Found'' @ CRLF @ CRLF @ ascii ''404 Not Found''"

definition response_500 :: bytes where
  "response_500 =
     ascii ''HTTP/1.1 500 Internal Server Error'' @ CRLF @ CRLF @ ascii ''500 Internal Server Error''"

definition greeting :: string where
  "greeting = ''<html><body><h1>Hello, world!</h1></body></html>''"

text \<open>
  The path of the request a connection carries, when reading, decoding and parsing
  succeed.
\<close>

definition request_path :: "client_socket \<Rightarrow> str option" where
  "request_path s =
     (case recv s 1024 of
        Inl x \<Rightarrow> None
      | Inr raw \<Rightarrow>
          (case utf8_decode raw of
             Inl x \<Rightarrow> None
           | Inr request_data \<Rightarrow>
               (case parse_request request_data of
                  Inl x \<Rightarrow> None
                | Inr (method, path, http_version, hs) \<Rightarrow> Some path)))"

text \<open>
  A path that \<open>urlparse\<close> cannot take for a URL: no colon in it, and no slash, space
  or control character (anything up to U+0020) at its start. And the resolver's answer for what the table
  gives.
\<close>

definition plain_path :: "str \<Rightarrow> bool" where
  "plain_path p =
     (list_all (\<lambda>c. c \<noteq> 58) p \<and> (case p of [] \<Rightarrow> True | c # cs \<Rightarrow> 32 < c \<and> c \<noteq> 47))"

definition type_or_default :: "str option \<Rightarrow> str" where
  "type_or_default t =
     (case t of
        None \<Rightarrow> lit ''application/octet-stream''
      | Some content_type \<Rightarrow>
          if content_type = [] then lit ''application/octet-stream'' else content_type)"

text \<open>Whether the next \<open>sendall\<close> on a connection goes through.\<close>

definition first_send_ok :: "client_socket \<Rightarrow> bool" where
  "first_send_ok s = (case send_script s of [] \<Rightarrow> True | ok # rest \<Rightarrow> ok)"

text \<open>
  What a step does to the responses delivered on a connection: one more and a normal
  return, or an exception and nothing new.
\<close>

definition delivered_one :: "client_socket \<Rightarrow> client_socket \<times> (exn + unit) \<Rightarrow> bool" where
  "delivered_one s out = (snd out = Inr () \<and> length (sent (fst out)) = Suc (length (sent s)))"

definition delivered_none :: "client_socket \<Rightarrow> client_socket \<times> (exn + unit) \<Rightarrow> bool" where
  "delivered_none s out = (isl (snd out) \<and> sent (fst out) = sent s)"

text \<open>
  A small world for the examples: a text file, a file with one byte above 127, a
  directory, an unreadable file and a file under a directory that may not be searched;
  a connection whose first send fails, and another that carries a request line of two
  tokens; a header whose name holds the separator.
\<close>

definition example_files :: "str \<Rightarrow> fs_entry" where
  "example_files p =
     (if p = lit ''sample.txt'' then RegularFile (ascii ''hi'')
      else if p = lit ''a.bin'' then RegularFile [0xE9]
      else if p = lit ''pub'' then Directory
      else if p = lit ''secret'' then Unreadable
      else if p = lit ''locked/x'' then Inaccessible
      else Absent)"

definition example_types :: library where
  "example_types =
     \<lparr>types_map =
        (\<lambda>ext. if ext = lit ''.txt'' then Some (lit ''text/plain'')
               else if ext = lit ''.html'' then Some (lit ''text/html'')
               else if ext = lit ''.tar'' then Some (lit ''application/x-tar'')
               else None),
      unicode_lower = (\<lambda>s i. [s ! i]),
      check_bracketed_host = (\<lambda>host. Inr ()),
      checknetloc_nfkc = (\<lambda>netloc. Inr ())\<rparr>"

definition example_env :: env where
  "example_env = file_system example_files example_types"

definition bad_connection :: client_socket where
  "bad_connection = \<lparr>pending = Inr (ascii ''hello''), send_script = [False], sent = [], closed = False\<rparr>"

definition refused_connection :: client_socket where
  "refused_connection =
     \<lparr>pending = Inr (ascii ''GET /'' @ CRLF @ CRLF), send_script = [False], sent = [], closed = False\<rparr>"

definition colon_in_name :: headers where
  "colon_in_name = [(lit ''a: b'', lit ''c'')]"

section \<open>Lemmas\<close>

declare digits.simps [simp del]

subsection \<open>Encoding\<close>

lemma encode_code_point_ok:
  "c \<le> 0x10FFFF \<Longrightarrow> \<not> (0xD800 \<le> c \<and> c \<le> 0xDFFF) \<Longrightarrow> encode_code_point c = Inr (code_point_bytes c)"
  by (simp add: code_point_bytes_def encode_code_point_def)

lemma encode_code_point_bad:
  "\<not> (c \<le> 0x10FFFF \<and> \<not> (0xD800 \<le> c \<and> c \<le> 0xDFFF)) \<Longrightarrow> encode_code_point c = Inl UnicodeEncodeError"
  by (auto simp add: encode_code_point_def)

lemma utf8_encode_encodable: "encodable s \<Longrightarrow> utf8_encode s = Inr (utf8_bytes s)"
  by (induction s) (simp_all add: encodable_def utf8_bytes_def encode_code_point_ok)

lemma utf8_encode_error: "utf8_encode s = Inl x \<Longrightarrow> x = UnicodeEncodeError"
  by (induction s) (auto simp add: encode_code_point_def split: sum.splits if_splits)

lemma utf8_encode_not_encodable: "\<not> encodable s \<Longrightarrow> utf8_encode s = Inl UnicodeEncodeError"
proof (induction s)
  case Nil
  then show ?case by (simp add: encodable_def)
next
  case (Cons c s)
  show ?case
  proof (cases "c \<le> 0x10FFFF \<and> \<not> (0xD800 \<le> c \<and> c \<le> 0xDFFF)")
    case True
    with Cons.prems have "\<not> encodable s" by (simp add: encodable_def)
    with Cons.IH True show ?thesis by (simp add: encode_code_point_ok)
  next
    case False
    then show ?thesis using encode_code_point_bad [of c] by simp
  qed
qed

lemma utf8_bytes_append: "utf8_bytes (a @ b) = utf8_bytes a @ utf8_bytes b"
  by (simp add: utf8_bytes_def)

lemma encodable_append: "encodable (a @ b) \<longleftrightarrow> encodable a \<and> encodable b"
  by (simp add: encodable_def)

lemma digits_range: "list_all (\<lambda>c. 48 \<le> c \<and> c \<le> 57) (digits n)"
proof (induction n rule: digits.induct)
  case (1 n)
  show ?case
  proof (cases "n < 10")
    case True
    then show ?thesis by (subst digits.simps) simp
  next
    case False
    with 1 show ?thesis by (subst digits.simps) simp
  qed
qed

lemma range_encodable: "list_all (\<lambda>c. 48 \<le> c \<and> c \<le> 57) s \<Longrightarrow> encodable s"
  by (induction s) (simp_all add: encodable_def)

lemma encodable_digits: "encodable (digits n)"
  by (rule range_encodable) (rule digits_range)

lemma encodable_decimal: "encodable (decimal i)"
proof (cases "i < 0")
  case True
  have "encodable (45 # digits (nat (- i)))"
    using encodable_digits [of "nat (- i)"] by (simp add: encodable_def)
  with True show ?thesis by (simp add: decimal_def)
next
  case False
  then show ?thesis by (simp add: decimal_def encodable_digits)
qed

lemma str_of_int_formattable: "formattable i \<Longrightarrow> str_of_int i = Inr (decimal i)"
  by (simp add: str_of_int_def formattable_def)

lemma str_of_int_too_long: "\<not> formattable i \<Longrightarrow> str_of_int i = Inl ValueError"
  by (simp add: str_of_int_def formattable_def)

lemma encodable_latin1: "encodable (latin1_decode content)"
proof -
  have "unat b \<le> 0x10FFFF \<and> \<not> (0xD800 \<le> unat b \<and> unat b \<le> 0xDFFF)" for b :: byte
    using unsigned_less [of b, where ?'a = nat] by simp
  then show ?thesis
    by (simp add: encodable_def latin1_decode_def list_all_iff)
qed

lemma latin1_ascii:
  "list_all (\<lambda>b. b < 0x80) content \<Longrightarrow> utf8_bytes (latin1_decode content) = content"
proof (induction content)
  case Nil
  then show ?case by (simp add: utf8_bytes_def latin1_decode_def)
next
  case (Cons b bs)
  then have "unat b < 128" by (simp add: word_less_nat_alt)
  then have "code_point_bytes (unat b) = [b]"
    by (simp add: code_point_bytes_def encode_code_point_def)
  with Cons show ?case by (simp add: utf8_bytes_def latin1_decode_def)
qed

subsection \<open>The header block\<close>

lemma header_lines_fold:
  "foldl (\<lambda>acc (n, v). acc @ n @ colon_space @ v @ crlf) a hs
     = a @ concat (map (\<lambda>(n, v). n @ colon_space @ v @ crlf) hs)"
  by (induction hs arbitrary: a) (simp_all add: case_prod_beta)

lemma header_lines_concat:
  "header_lines hs = concat (map (\<lambda>(n, v). n @ colon_space @ v @ crlf) hs)"
  by (simp add: header_lines_def header_lines_fold)

lemma utf8_bytes_crlf: "utf8_bytes crlf = CRLF"
  by (simp add: utf8_bytes_def crlf_def CRLF_def code_point_bytes_def encode_code_point_def)

lemma utf8_bytes_colon_space: "utf8_bytes colon_space = ascii '': ''"
  by (simp add: utf8_bytes_def colon_space_def ascii_def code_point_bytes_def encode_code_point_def)

lemma utf8_bytes_space: "utf8_bytes space = ascii '' ''"
  by (simp add: utf8_bytes_def space_def ascii_def code_point_bytes_def encode_code_point_def)

lemma encodable_consts: "encodable crlf" "encodable colon_space" "encodable space"
  by (simp_all add: encodable_def crlf_def colon_space_def space_def)

lemma encodable_header_lines: "headers_encodable hs \<Longrightarrow> encodable (header_lines hs)"
  unfolding header_lines_concat
  by (induction hs) (auto simp add: headers_encodable_def encodable_append encodable_consts, simp add: encodable_def)

lemma not_encodable_header_lines: "\<not> headers_encodable hs \<Longrightarrow> \<not> encodable (header_lines hs)"
  unfolding header_lines_concat
  by (induction hs) (auto simp add: headers_encodable_def encodable_append)

lemma utf8_bytes_header_lines: "utf8_bytes (header_lines hs) = concat (map header_bytes hs)"
  unfolding header_lines_concat
  by (induction hs)
     (auto simp add: utf8_bytes_append header_bytes_def utf8_bytes_crlf utf8_bytes_colon_space,
      simp add: utf8_bytes_def)

subsection \<open>The responses\<close>

lemma status_message_cases:
  "(case map_of status_messages code of Some m \<Rightarrow> m | None \<Rightarrow> lit ''Unknown Status'')
     = lit (spec_reason_phrase code)"
  by (simp add: status_messages_def spec_reason_phrase_def)

lemma reason_ascii:
  "encodable (lit (spec_reason_phrase code))"
  "utf8_bytes (lit (spec_reason_phrase code)) = ascii (spec_reason_phrase code)"
  by (simp_all add: spec_reason_phrase_def encodable_def lit_def ascii_def utf8_bytes_def
       code_point_bytes_def encode_code_point_def)

lemma http_prefix_ascii:
  "encodable (lit ''HTTP/1.1 '')"
  "utf8_bytes (lit ''HTTP/1.1 '') = ascii ''HTTP/1.1 ''"
  by (simp_all add: encodable_def lit_def ascii_def utf8_bytes_def
       code_point_bytes_def encode_code_point_def)

lemma generate_response_layout:
  assumes "formattable code" and "headers_encodable hs" and "encodable body"
  shows "generate_response code hs body =
           Inr (ascii ''HTTP/1.1 '' @ utf8_bytes (decimal code) @ ascii '' ''
                  @ ascii (spec_reason_phrase code) @ CRLF
                @ concat (map header_bytes hs)
                @ CRLF
                @ utf8_bytes body)"
proof -
  let ?response = "(lit ''HTTP/1.1 '' @ decimal code @ space @ lit (spec_reason_phrase code) @ crlf)
                     @ header_lines hs @ crlf @ body"
  have enc: "encodable ?response"
    using assms(2,3)
    by (simp add: encodable_append http_prefix_ascii reason_ascii encodable_decimal
          encodable_consts encodable_header_lines)
  have "generate_response code hs body = utf8_encode ?response"
    using assms(1) by (simp add: generate_response_def status_message_cases str_of_int_formattable)
  also have "\<dots> = Inr (utf8_bytes ?response)"
    using enc by (rule utf8_encode_encodable)
  finally show ?thesis
    by (simp add: utf8_bytes_append http_prefix_ascii reason_ascii utf8_bytes_crlf
          utf8_bytes_space utf8_bytes_header_lines)
qed

lemma generate_response_value_error:
  "\<not> formattable code \<Longrightarrow> generate_response code hs body = Inl ValueError"
  by (simp add: generate_response_def str_of_int_too_long)

lemma generate_response_encode_error:
  assumes "formattable code" and "\<not> (headers_encodable hs \<and> encodable body)"
  shows "generate_response code hs body = Inl UnicodeEncodeError"
proof -
  let ?response = "(lit ''HTTP/1.1 '' @ decimal code @ space @ lit (spec_reason_phrase code) @ crlf)
                     @ header_lines hs @ crlf @ body"
  have "\<not> encodable ?response"
    using assms(2) not_encodable_header_lines [of hs] by (auto simp add: encodable_append)
  then have "utf8_encode ?response = Inl UnicodeEncodeError"
    by (rule utf8_encode_not_encodable)
  then show ?thesis
    using assms(1) by (simp add: generate_response_def status_message_cases str_of_int_formattable)
qed

lemma formattable_small: "formattable 200" "formattable 404" "formattable 500" "formattable 48"
  by (simp_all add: formattable_def digits.simps)

lemma generate_404: "generate_response 404 [] (lit ''404 Not Found'') = Inr response_404"
  by code_simp

lemma generate_500: "generate_response 500 [] (lit ''500 Internal Server Error'') = Inr response_500"
  by code_simp

lemma greeting_length:
  "str_of_int (int (length (lit ''<html><body><h1>Hello, world!</h1></body></html>''))) = Inr (lit ''48'')"
  by code_simp

lemma greeting_response:
  "generate_response 200
     [(lit ''Content-Type'', lit ''text/html''), (lit ''Content-Length'', lit ''48'')]
     (lit ''<html><body><h1>Hello, world!</h1></body></html>'')
   = Inr (ascii ''HTTP/1.1 200 OK'' @ CRLF @ ascii ''Content-Type: text/html'' @ CRLF
          @ ascii ''Content-Length: 48'' @ CRLF @ CRLF @ ascii greeting)"
  by code_simp

subsection \<open>Splitting and parsing\<close>

lemma str_split_nonempty: "str_split sep s \<noteq> []"
  by (induction sep s rule: str_split.induct) (auto split: list.splits)

lemma str_split1_no_sep: "\<not> contains sep l \<Longrightarrow> str_split1 sep l = [l]"
  by (induction l) auto

lemma str_split1_shape: "str_split1 sep l = [l] \<or> (\<exists>a b. str_split1 sep l = [a, b])"
  by (induction l) auto

lemma parse_headers_malformed:
  "list_ex (\<lambda>l. \<not> contains colon_space l) (takeWhile (\<lambda>l. l \<noteq> []) ls)
     \<Longrightarrow> parse_headers ls hs = Inl ValueError"
proof (induction ls arbitrary: hs)
  case Nil
  then show ?case by simp
next
  case (Cons line rest)
  from Cons.prems have ne: "line \<noteq> []" by (auto split: if_splits)
  consider (one) "str_split1 colon_space line = [line]"
    | (two) a b where "str_split1 colon_space line = [a, b]"
    using str_split1_shape by blast
  then show ?case
  proof cases
    case one
    with ne show ?thesis by simp
  next
    case two
    then have "contains colon_space line"
      using str_split1_no_sep [of colon_space line] by auto
    with Cons.prems ne have "list_ex (\<lambda>l. \<not> contains colon_space l) (takeWhile (\<lambda>l. l \<noteq> []) rest)"
      by simp
    then have "parse_headers rest (dict_set a b hs) = Inl ValueError" by (rule Cons.IH)
    with two ne show ?thesis by simp
  qed
qed

lemma three_tokens: "length xs \<noteq> 3 \<Longrightarrow> (case xs of [a, b, c] \<Rightarrow> f a b c | _ \<Rightarrow> d) = d"
  by (auto split: list.splits)

lemma parse_request_malformed:
  assumes "malformed request_data"
  shows "parse_request request_data = Inl ValueError"
proof (cases "str_split crlf request_data")
  case Nil
  then show ?thesis using str_split_nonempty by blast
next
  case (Cons request_line more_lines)
  show ?thesis
  proof (cases "length (str_split space request_line) = 3")
    case False
    then show ?thesis
      by (simp add: parse_request_def Cons three_tokens)
  next
    case True
    with assms Cons have "parse_headers more_lines [] = Inl ValueError"
      by (simp add: malformed_def parse_headers_malformed)
    then show ?thesis
      by (simp add: parse_request_def Cons split: list.splits)
  qed
qed

lemma str_split1_with_sep:
  "sep \<noteq> [] \<Longrightarrow> contains sep l \<Longrightarrow> \<exists>a b. str_split1 sep l = [a, b]"
proof (induction l)
  case Nil
  then show ?case by simp
next
  case (Cons c l)
  show ?case
  proof (cases "prefix sep (c # l)")
    case True
    with Cons.prems show ?thesis by simp
  next
    case False
    with Cons obtain a b where "str_split1 sep l = [a, b]" by auto
    with False show ?thesis by simp
  qed
qed

lemma parse_headers_wellformed:
  "\<not> list_ex (\<lambda>l. \<not> contains colon_space l) (takeWhile (\<lambda>l. l \<noteq> []) ls)
     \<Longrightarrow> \<exists>hs'. parse_headers ls hs = Inr hs'"
proof (induction ls arbitrary: hs)
  case Nil
  then show ?case by simp
next
  case (Cons line rest)
  show ?case
  proof (cases "line = []")
    case True
    then show ?thesis by simp
  next
    case False
    with Cons.prems have c: "contains colon_space line"
      and r: "\<not> list_ex (\<lambda>l. \<not> contains colon_space l) (takeWhile (\<lambda>l. l \<noteq> []) rest)"
      by simp_all
    from c obtain a b where ab: "str_split1 colon_space line = [a, b]"
      using str_split1_with_sep [of colon_space line] by (auto simp add: colon_space_def)
    from Cons.IH [OF r, of "dict_set a b hs"] False ab show ?thesis by simp
  qed
qed

lemma length_three: "length xs = 3 \<Longrightarrow> \<exists>a b c. xs = [a, b, c]"
  by (cases xs; cases "tl xs"; cases "tl (tl xs)") auto

lemma parse_request_wellformed:
  assumes "\<not> malformed request_data"
  shows "\<exists>method path http_version hs.
           parse_request request_data = Inr (method, path, http_version, hs)"
proof (cases "str_split crlf request_data")
  case Nil
  then show ?thesis using str_split_nonempty by blast
next
  case (Cons request_line more_lines)
  with assms have "length (str_split space request_line) = 3"
    and h: "\<not> list_ex (\<lambda>l. \<not> contains colon_space l) (takeWhile (\<lambda>l. l \<noteq> []) more_lines)"
    by (simp_all add: malformed_def)
  then obtain a b c where t: "str_split space request_line = [a, b, c]"
    using length_three by blast
  from parse_headers_wellformed [OF h, of "[]"] obtain hs
    where "parse_headers more_lines [] = Inr hs" by blast
  with Cons t show ?thesis by (simp add: parse_request_def)
qed

lemma prefix2: "prefix [x, y] s \<longleftrightarrow> (\<exists>t. s = x # y # t)"
  by (cases s; cases "tl s") (auto simp add: prefix_def)

lemma no_early_match:
  assumes "x \<noteq> y" and "\<not> contains [x, y] (c # a)"
  shows "\<not> prefix [x, y] (c # a @ x # y # b)"
proof (cases a)
  case Nil
  with assms show ?thesis by (simp add: prefix2)
next
  case (Cons d a')
  with assms show ?thesis by (auto simp add: prefix2)
qed

lemma str_split_at_sep:
  "x \<noteq> y \<Longrightarrow> \<not> contains [x, y] a \<Longrightarrow> str_split [x, y] (a @ x # y # b) = a # str_split [x, y] b"
proof (induction a)
  case Nil
  then show ?case by simp
next
  case (Cons c a)
  from Cons.prems have "\<not> prefix [x, y] (c # a @ x # y # b)" by (rule no_early_match)
  moreover from Cons.prems have "\<not> contains [x, y] a" by simp
  ultimately show ?case using Cons.IH Cons.prems(1) by simp
qed

lemma str_split1_at_sep:
  "x \<noteq> y \<Longrightarrow> \<not> contains [x, y] a \<Longrightarrow> str_split1 [x, y] (a @ x # y # b) = [a, b]"
proof (induction a)
  case Nil
  then show ?case by simp
next
  case (Cons c a)
  from Cons.prems have "\<not> prefix [x, y] (c # a @ x # y # b)" by (rule no_early_match)
  moreover from Cons.prems have "\<not> contains [x, y] a" by simp
  ultimately show ?case using Cons.IH Cons.prems(1) by simp
qed

lemma contains_append2:
  "contains [x, y] (a @ b) \<longleftrightarrow>
     contains [x, y] a \<or> contains [x, y] b \<or> (a \<noteq> [] \<and> last a = x \<and> b \<noteq> [] \<and> hd b = y)"
proof (induction a)
  case Nil
  then show ?case by simp
next
  case (Cons c a)
  show ?case
  proof (cases a)
    case Nil
    then show ?thesis by (cases b) (auto simp add: prefix2)
  next
    case (Cons d a')
    with Cons.IH show ?thesis by (auto simp add: prefix2)
  qed
qed

lemma header_line_no_crlf:
  assumes "separable h"
  shows "\<not> contains crlf (header_line h)"
proof -
  have "\<not> contains [13, 10] (58 # 32 # snd h)"
    using assms by (simp add: separable_def crlf_def prefix2)
  then show ?thesis
    using assms
    by (simp add: header_line_def separable_def crlf_def colon_space_def contains_append2)
qed

lemma header_lines_split:
  "list_all separable hs \<Longrightarrow>
     str_split crlf (header_lines hs @ t) = map header_line hs @ str_split crlf t"
proof (induction hs)
  case Nil
  then show ?case by (simp add: header_lines_concat)
next
  case (Cons h hs)
  then have nc: "\<not> contains [13, 10] (header_line h)"
    using header_line_no_crlf [of h] by (simp add: crlf_def)
  have "header_lines (h # hs) @ t = header_line h @ 13 # 10 # (header_lines hs @ t)"
    by (simp add: header_lines_concat header_line_def crlf_def case_prod_beta)
  then have "str_split crlf (header_lines (h # hs) @ t)
               = header_line h # str_split crlf (header_lines hs @ t)"
    using str_split_at_sep [of 13 10 "header_line h", OF _ nc] by (simp add: crlf_def)
  with Cons show ?case by simp
qed

lemma dict_set_fresh: "k \<notin> fst ` set d \<Longrightarrow> dict_set k v d = d @ [(k, v)]"
  by (induction d) auto

lemma parse_header_lines:
  "list_all separable hs \<Longrightarrow> distinct (map fst (acc @ hs)) \<Longrightarrow>
     parse_headers (map header_line hs @ [] # rest) acc = Inr (acc @ hs)"
proof (induction hs arbitrary: acc)
  case Nil
  then show ?case by simp
next
  case (Cons h hs)
  obtain n v where h: "h = (n, v)" by (cases h)
  from Cons.prems(1) have "\<not> contains [58, 32] n"
    by (simp add: h separable_def colon_space_def)
  then have sp: "str_split1 colon_space (header_line h) = [n, v]"
    using str_split1_at_sep [of 58 32 n v] by (simp add: h header_line_def colon_space_def)
  have ne: "header_line h \<noteq> []"
    by (simp add: header_line_def colon_space_def)
  from Cons.prems(2) have fresh: "n \<notin> fst ` set acc" by (auto simp add: h)
  have "parse_headers (map header_line (h # hs) @ [] # rest) acc
          = parse_headers (map header_line hs @ [] # rest) (acc @ [(n, v)])"
    using sp ne fresh by (simp add: dict_set_fresh)
  also have "\<dots> = Inr ((acc @ [(n, v)]) @ hs)"
    using Cons.prems by (intro Cons.IH) (simp_all add: h)
  finally show ?case by (simp add: h)
qed

subsection \<open>The content type\<close>

lemma last_component_append:
  assumes "47 \<notin> set t"
  shows "last_component (b @ t) = last_component b @ t"
proof -
  have "takeWhile (\<lambda>c. c \<noteq> 47) (rev t @ rev b) = rev t @ takeWhile (\<lambda>c. c \<noteq> 47) (rev b)"
    using assms by (intro takeWhile_append2) auto
  then show ?thesis by (simp add: last_component_def)
qed

lemma splitext_dot:
  assumes "46 \<notin> set x" and "47 \<notin> set x" and "list_ex (\<lambda>c. c \<noteq> 46) (last_component b)"
  shows "splitext (b @ 46 # x) = (b, 46 # x)"
proof -
  have name: "last_component (b @ 46 # x) = last_component b @ 46 # x"
    using assms(2) by (simp add: last_component_append)
  have dw: "dropWhile (\<lambda>c. c \<noteq> 46) (rev x @ 46 # rev (last_component b)) = 46 # rev (last_component b)"
    using assms(1) by (subst dropWhile_append2) auto
  show ?thesis
    using assms(3) by (simp add: splitext_def name dw Let_def)
qed

lemma splitext_no_dot:
  assumes "46 \<notin> set (last_component p)"
  shows "splitext p = (p, [])"
  using assms by (simp add: splitext_def Let_def)

lemma url_clean_plain:
  assumes "plain_path p"
  shows "split_scheme (url_clean p) = ([], url_clean p) \<and> take 2 (url_clean p) \<noteq> [47, 47]"
proof (cases p)
  case Nil
  then show ?thesis by (simp add: url_clean_def split_scheme_def)
next
  case (Cons c cs)
  with assms have c: "32 < c" "c \<noteq> 47" and nc: "58 \<notin> set p"
    by (auto simp add: plain_path_def list_all_iff)
  from c Cons have "url_clean p = c # filter (\<lambda>c. c \<noteq> 9 \<and> c \<noteq> 13 \<and> c \<noteq> 10) cs"
    by (simp add: url_clean_def)
  moreover from nc have "58 \<notin> set (url_clean p)"
    using set_dropWhileD [of 58 "\<lambda>c. c \<le> 32" p] by (auto simp add: url_clean_def)
  ultimately show ?thesis
    using c by (simp add: split_scheme_def)
qed

lemma urlparse_plain:
  assumes "plain_path p"
  shows "\<exists>path. urlparse lib p = Inr ([], path)"
  using url_clean_plain [OF assms]
  by (simp add: urlparse_def urlsplit_def)

lemma guess_type_plain:
  assumes "plain_path p"
  shows "guess_type lib p = Inr (guess_file_type lib p)"
  using urlparse_plain [OF assms, of lib]
  by (auto simp add: guess_type_def)

lemma get_content_type_value:
  "guess_type (mime_library e) p = Inr t \<Longrightarrow> get_content_type e p = Inr (type_or_default t)"
  by (simp add: get_content_type_def type_or_default_def split: option.splits)

lemma guess_file_type_plain_extension:
  assumes "splitext p = (base, ext)"
      and "map_of suffix_map (str_lower lib ext) = None"
      and "map_of encodings_map ext = None"
  shows "guess_file_type lib p = types_map lib (str_lower lib ext)"
  using assms by (simp add: guess_file_type_def)

lemma str_lower_empty: "str_lower lib [] = []"
  by (simp add: str_lower_def)

lemma guess_file_type_no_extension:
  assumes "46 \<notin> set (last_component p)"
  shows "guess_file_type lib p = types_map lib []"
proof -
  have "map_of suffix_map [] = None" "map_of encodings_map [] = None"
    by code_simp+
  then show ?thesis
    using guess_file_type_plain_extension [of p p "[]" lib] splitext_no_dot [OF assms]
    by (simp add: str_lower_empty)
qed

subsection \<open>Sending\<close>

lemma sendall_ok: "send_script s = [] \<Longrightarrow> sendall s d = (s\<lparr>sent := sent s @ [d]\<rparr>, Inr ())"
  by (simp add: sendall_def)

lemma send_response_ok:
  "send_script s = [] \<Longrightarrow> send_response s (Inr d) = (s\<lparr>sent := sent s @ [d]\<rparr>, Inr ())"
  by (simp add: send_response_def sendall_ok)

lemma sendall_delivers: "delivered_one s (sendall s d) \<or> delivered_none s (sendall s d)"
  by (simp add: sendall_def delivered_one_def delivered_none_def split: list.splits)

lemma send_response_delivers: "delivered_one s (send_response s r) \<or> delivered_none s (send_response s r)"
  using sendall_delivers [of s]
  by (cases r) (simp_all add: send_response_def delivered_none_def)

lemma handler_delivers:
  assumes "delivered_none s (s', Inl x)"
  shows "delivered_one s (send_response s' r) \<or> delivered_none s (send_response s' r)"
  using send_response_delivers [of s' r] assms
  by (simp add: delivered_one_def delivered_none_def)

subsection \<open>Serving a file\<close>


lemma serve_static_file_unreadable:
  assumes "send_script s = []" and "os_path_exists e path" and "open_read e path = Inl x"
  shows "serve_static_file e s path = (s\<lparr>sent := sent s @ [response_500]\<rparr>, Inr ())"
  using assms
  by (simp add: serve_static_file_def serve_static_file_try_def generate_500 send_response_ok)

lemma serve_static_file_200:
  assumes "os_path_exists e path"
      and "open_read e path = Inr content"
      and "get_content_type e path = Inr content_type"
      and "formattable (int (length content))"
      and "send_script s = []"
      and "encodable content_type"
  shows "serve_static_file e s path =
           (s\<lparr>sent := sent s @
               [ascii ''HTTP/1.1 200 OK'' @ CRLF
                @ ascii ''Content-Type: '' @ utf8_bytes content_type @ CRLF
                @ ascii ''Content-Length: '' @ utf8_bytes (decimal (int (length content))) @ CRLF
                @ CRLF
                @ utf8_bytes (latin1_decode content)]\<rparr>, Inr ())"
proof -
  let ?hs = "[(lit ''Content-Type'', content_type),
              (lit ''Content-Length'', decimal (int (length content)))]"
  have names: "encodable (lit ''Content-Type'')" "encodable (lit ''Content-Length'')"
    by (simp_all add: encodable_def lit_def)
  have bytes: "utf8_bytes (lit ''Content-Type'') = ascii ''Content-Type''"
     "utf8_bytes (lit ''Content-Length'') = ascii ''Content-Length''"
     "utf8_bytes (decimal 200) = ascii ''200''"
    by code_simp+
  have "headers_encodable ?hs"
    using assms(6) by (simp add: headers_encodable_def names encodable_decimal)
  then have "generate_response 200 ?hs (latin1_decode content) =
      Inr (ascii ''HTTP/1.1 200 OK'' @ CRLF
           @ ascii ''Content-Type: '' @ utf8_bytes content_type @ CRLF
           @ ascii ''Content-Length: '' @ utf8_bytes (decimal (int (length content))) @ CRLF
           @ CRLF
           @ utf8_bytes (latin1_decode content))"
    using generate_response_layout [of 200 ?hs "latin1_decode content"]
    by (simp add: encodable_latin1 header_bytes_def bytes spec_reason_phrase_def ascii_def
          formattable_small)
  then show ?thesis
    using assms(1-5)
    by (simp add: serve_static_file_def serve_static_file_try_def send_response_ok
          str_of_int_formattable)
qed

lemma serve_static_file_try_delivers:
  "delivered_one s (serve_static_file_try e s p) \<or> delivered_none s (serve_static_file_try e s p)"
  using send_response_delivers [of s]
  by (simp add: serve_static_file_try_def Let_def delivered_none_def split: sum.splits)

lemma serve_static_file_delivers:
  "delivered_one s (serve_static_file e s p) \<or> delivered_none s (serve_static_file e s p)"
proof (cases "serve_static_file_try e s p")
  case (Pair s' r)
  show ?thesis
  proof (cases r)
    case (Inr u)
    with Pair serve_static_file_try_delivers [of s e p] show ?thesis
      by (simp add: serve_static_file_def delivered_one_def delivered_none_def)
  next
    case (Inl x)
    with Pair serve_static_file_try_delivers [of s e p] have "delivered_none s (s', Inl x)"
      by (simp add: delivered_one_def)
    then show ?thesis
      using Pair Inl by (simp add: serve_static_file_def handler_delivers)
  qed
qed

lemma serve_static_file_try_ok:
  assumes "send_script s = []"
  shows "(\<exists>d. serve_static_file_try e s p = (s\<lparr>sent := sent s @ [d]\<rparr>, Inr ()))
         \<or> (\<exists>x. serve_static_file_try e s p = (s, Inl x))"
  using assms
  by (auto simp add: serve_static_file_try_def Let_def send_response_def sendall_ok generate_404
        split: sum.splits)

lemma serve_static_file_ok:
  assumes "send_script s = []"
  shows "\<exists>d. serve_static_file e s p = (s\<lparr>sent := sent s @ [d]\<rparr>, Inr ())"
  using serve_static_file_try_ok [OF assms, of e p] assms
  by (auto simp add: serve_static_file_def generate_500 send_response_ok)

subsection \<open>Handling a connection\<close>

lemma handle_client_static:
  assumes "request_path s = Some path" and "path \<noteq> lit ''/''"
  shows "handle_client_try e s = serve_static_file e s (str_lstrip (lit ''/'') path)"
  using assms
  by (auto simp add: request_path_def handle_client_try_def split: sum.splits)

lemma handle_client_root:
  assumes "request_path s = Some (lit ''/'')"
  shows "handle_client_try e s = (s, Inr ())"
  using assms
  by (auto simp add: request_path_def handle_client_try_def greeting_length greeting_response
        split: sum.splits)

lemma handle_client_unparsed:
  assumes "request_path s = None"
  shows "\<exists>x. handle_client_try e s = (s, Inl x)"
  using assms
  by (auto simp add: request_path_def handle_client_try_def split: sum.splits)

lemma handle_client_try_delivers:
  "delivered_one s (handle_client_try e s) \<or> delivered_none s (handle_client_try e s)
   \<or> handle_client_try e s = (s, Inr ())"
proof (cases "request_path s")
  case None
  then show ?thesis
    using handle_client_unparsed [of s e] by (auto simp add: delivered_none_def)
next
  case (Some path)
  show ?thesis
  proof (cases "path = lit ''/''")
    case True
    with Some show ?thesis by (simp add: handle_client_root)
  next
    case False
    with Some show ?thesis
      using serve_static_file_delivers [of s e "str_lstrip (lit ''/'') path"]
      by (auto simp add: handle_client_static)
  qed
qed

lemma handle_client_at_most_one:
  "length (sent (fst (handle_client e s))) \<le> Suc (length (sent s))"
proof (cases "handle_client_try e s")
  case (Pair s' r)
  show ?thesis
  proof (cases r)
    case (Inr u)
    with Pair handle_client_try_delivers [of s e] show ?thesis
      by (auto simp add: handle_client_def close_def delivered_one_def delivered_none_def)
  next
    case (Inl x)
    with Pair handle_client_try_delivers [of s e] have "delivered_none s (s', Inl x)"
      by (auto simp add: delivered_one_def)
    from handler_delivers [OF this, of "generate_response 500 [] (lit ''500 Internal Server Error'')"]
      Pair Inl show ?thesis
      by (auto simp add: handle_client_def close_def delivered_one_def delivered_none_def
            split: prod.splits)
  qed
qed

lemma handle_client_closes: "closed (fst (handle_client e s))"
  by (simp add: handle_client_def close_def split: prod.splits)

lemma handle_client_ok:
  assumes "send_script s = []"
  shows "snd (handle_client e s) = Inr ()
         \<and> (request_path s \<noteq> Some (lit ''/'') \<longrightarrow>
              length (sent (fst (handle_client e s))) = Suc (length (sent s)))
         \<and> (request_path s = None \<longrightarrow>
              sent (fst (handle_client e s)) = sent s @ [response_500])"
proof (cases "request_path s")
  case None
  then obtain x where "handle_client_try e s = (s, Inl x)"
    using handle_client_unparsed by blast
  then show ?thesis
    using assms None by (simp add: handle_client_def generate_500 send_response_ok close_def)
next
  case (Some path)
  show ?thesis
  proof (cases "path = lit ''/''")
    case True
    with Some show ?thesis
      by (simp add: handle_client_def handle_client_root close_def)
  next
    case False
    from serve_static_file_ok [OF assms, of e "str_lstrip (lit ''/'') path"]
    obtain d where "serve_static_file e s (str_lstrip (lit ''/'') path) = (s\<lparr>sent := sent s @ [d]\<rparr>, Inr ())"
      by blast
    then show ?thesis
      using handle_client_static [OF Some False, of e] Some False
      by (simp add: handle_client_def close_def)
  qed
qed

lemma main_loop_all:
  "list_all (\<lambda>c. send_script c = []) cs \<Longrightarrow>
     main_loop e (map Inr cs) = (map (\<lambda>c. fst (handle_client e c)) cs, Listening)"
proof (induction cs)
  case Nil
  then show ?case by simp
next
  case (Cons c cs)
  then have "snd (handle_client e c) = Inr ()" by (simp add: handle_client_ok)
  then obtain s' where "handle_client e c = (s', Inr ())"
    by (cases "handle_client e c") simp
  with Cons show ?case by simp
qed

lemma main_loop_exit:
  "snd (handle_client e s) = Inl x \<Longrightarrow>
     main_loop e (Inr s # rest) = ([fst (handle_client e s)], Terminated x)"
  by (cases "handle_client e s") simp

section \<open>The root path\<close>

text \<open>
  C1. The claim is that a request for the path \<open>/\<close> is answered with the 200 greeting
  page. \<open>handle_client\<close> builds that response (lemma \<open>greeting_response\<close>: status
  200, Content-Type \<open>text/html\<close>, Content-Length 48, the greeting as body) and never
  sends it: for every connection whose request path is exactly \<open>/\<close>, whatever the
  transport does, the socket is closed with nothing sent on it.
\<close>

theorem root_request_nothing_sent:
  assumes "request_path s = Some (lit ''/'')"
  shows "handle_client e s = (s\<lparr>closed := True\<rparr>, Inr ())"
  using assms by (simp add: handle_client_def handle_client_root close_def)

theorem root_request_nothing_sent_witness:
  "handle_client example_env (connection (ascii ''GET / HTTP/1.1'' @ CRLF @ CRLF))
     = (\<lparr>pending = Inr (ascii ''GET / HTTP/1.1'' @ CRLF @ CRLF), send_script = [],
         sent = [], closed = True\<rparr>, Inr ())"
proof -
  have 1: "request_path (connection (ascii ''GET / HTTP/1.1'' @ CRLF @ CRLF)) = Some (lit ''/'')"
    by code_simp
  from root_request_nothing_sent [OF 1, of example_env]
  show ?thesis by (simp add: connection_def)
qed

section \<open>One connection after another\<close>

text \<open>
  C2, as it holds. Whatever happens while a connection is read, parsed, routed and
  answered, at most one response is delivered on it and it is closed when
  \<open>handle_client\<close> is left. When every send on the connection goes through, no
  exception leaves \<open>handle_client\<close>; a request that cannot be read, decoded or parsed
  is answered with the 500 response; and a request for a path other than \<open>/\<close> gets
  exactly one response. The accept loop handles every connection of a sequence on which
  the sends go through, and stays listening. An exception that leaves
  \<open>handle_client\<close> (the send of the 500 failed in its handler) ends the loop.
\<close>

theorem connection_handling:
  "closed (fst (handle_client e s))
   \<and> length (sent (fst (handle_client e s))) \<le> Suc (length (sent s))
   \<and> (send_script s = [] \<longrightarrow>
        snd (handle_client e s) = Inr ()
        \<and> (request_path s \<noteq> Some (lit ''/'') \<longrightarrow>
             length (sent (fst (handle_client e s))) = Suc (length (sent s)))
        \<and> (request_path s = None \<longrightarrow>
             sent (fst (handle_client e s)) = sent s @ [response_500]))
   \<and> (list_all (\<lambda>c. send_script c = []) cs \<longrightarrow>
        main_loop e (map Inr cs) = (map (\<lambda>c. fst (handle_client e c)) cs, Listening))
   \<and> (snd (handle_client e s) = Inl x \<longrightarrow>
        main_loop e (Inr s # rest) = ([fst (handle_client e s)], Terminated x))"
  using handle_client_closes [of e s] handle_client_at_most_one [of e s]
    handle_client_ok [of s e] main_loop_all [of cs e] main_loop_exit [of e s x rest]
  by blast

theorem connection_handling_witness:
  "closed (fst (handle_client example_env (connection (ascii ''GET /sample.txt HTTP/1.1'' @ CRLF @ CRLF))))
   \<and> length (sent (fst (handle_client example_env
         (connection (ascii ''GET /sample.txt HTTP/1.1'' @ CRLF @ CRLF))))) = 1
   \<and> sent (fst (handle_client example_env (connection (ascii ''hello'')))) = [response_500]
   \<and> main_loop example_env
        [Inr (connection (ascii ''hello'')),
         Inr (connection (ascii ''GET /sample.txt HTTP/1.1'' @ CRLF @ CRLF))]
      = ([fst (handle_client example_env (connection (ascii ''hello''))),
          fst (handle_client example_env
            (connection (ascii ''GET /sample.txt HTTP/1.1'' @ CRLF @ CRLF)))],
         Listening)
   \<and> main_loop example_env [Inr bad_connection, Inr (connection (ascii ''hello''))]
      = ([fst (handle_client example_env bad_connection)], Terminated ConnectionError)"
proof -
  let ?good = "connection (ascii ''GET /sample.txt HTTP/1.1'' @ CRLF @ CRLF)"
  let ?junk = "connection (ascii ''hello'')"
  have 1: "send_script ?good = []" "send_script ?junk = []"
    by (simp_all add: connection_def)
  have 2: "request_path ?good \<noteq> Some (lit ''/'')" by code_simp
  have 3: "request_path ?junk = None" by code_simp
  have 4: "snd (handle_client example_env bad_connection) = Inl ConnectionError" by code_simp
  have 5: "list_all (\<lambda>c. send_script c = []) [?junk, ?good]"
    by (simp add: connection_def)
  have 6: "sent ?good = []" "sent ?junk = []"
    by (simp_all add: connection_def)
  from connection_handling [of example_env ?good "[?junk, ?good]" ConnectionError "[]"]
       connection_handling [of example_env ?junk "[]" ConnectionError "[]"]
       connection_handling [of example_env bad_connection "[]" ConnectionError "[Inr ?junk]"]
       1 2 3 4 5 6
  show ?thesis by simp
qed

text \<open>
  C2, as the specification states it, fails: on a connection whose request cannot be
  parsed and whose send of the 500 fails, no response is sent, the exception leaves
  \<open>handle_client\<close> and ends the accept loop, and the connection that follows is never
  accepted.
\<close>

theorem failed_send_ends_server:
  "main_loop example_env
     [Inr bad_connection, Inr (connection (ascii ''GET /sample.txt HTTP/1.1'' @ CRLF @ CRLF))]
   = ([\<lparr>pending = Inr (ascii ''hello''), send_script = [], sent = [], closed = True\<rparr>],
      Terminated ConnectionError)"
  by code_simp

section \<open>Static files\<close>

text \<open>
  C3. The claim is that the body sent for an existing readable file is the file's
  content, byte for byte. The file is decoded as Latin-1 and the response encoded as
  UTF-8 (lemma \<open>serve_static_file_200\<close>), which gives the content back only when
  every byte is below 128 (lemma \<open>latin1_ascii\<close>). For the file \<open>a.bin\<close> holding
  the single byte E9, the response announces Content-Length 1 and carries the two bytes
  C3 A9.
\<close>

theorem non_ascii_file_body_altered:
  "handle_client example_env (connection (ascii ''GET /a.bin HTTP/1.1'' @ CRLF @ CRLF))
     = (\<lparr>pending = Inr (ascii ''GET /a.bin HTTP/1.1'' @ CRLF @ CRLF), send_script = [],
         sent = [ascii ''HTTP/1.1 200 OK'' @ CRLF
                 @ ascii ''Content-Type: application/octet-stream'' @ CRLF
                 @ ascii ''Content-Length: 1'' @ CRLF @ CRLF @ [0xC3, 0xA9]],
         closed = True\<rparr>, Inr ())
   \<and> example_files (lit ''a.bin'') = RegularFile [0xE9]"
  by code_simp




text \<open>
  C10. On a file system, a path that names a directory is answered with the 500
  response and not with the 404 response: the directory exists, and opening it for
  reading raises. This holds of \<open>serve_static_file\<close>, and of \<open>handle_client\<close> for
  every request whose path, other than \<open>/\<close> and with its leading slashes stripped, is
  that path. Stated for a connection whose send goes through.
\<close>

theorem directory_request_500:
  assumes "files p = Directory" and "send_script s = []"
  shows "serve_static_file (file_system files types) s p
           = (s\<lparr>sent := sent s @ [response_500]\<rparr>, Inr ())
         \<and> response_500 \<noteq> response_404
         \<and> (\<forall>path. request_path s = Some path \<and> path \<noteq> lit ''/''
                   \<and> str_lstrip (lit ''/'') path = p
               \<longrightarrow> handle_client (file_system files types) s
                     = (s\<lparr>sent := sent s @ [response_500], closed := True\<rparr>, Inr ()))"
proof -
  let ?e = "file_system files types"
  have "os_path_exists ?e p" "open_read ?e p = Inl IsADirectoryError"
    using assms(1) by (simp_all add: file_system_def os_path_exists_def)
  then have served: "serve_static_file ?e s p = (s\<lparr>sent := sent s @ [response_500]\<rparr>, Inr ())"
    using serve_static_file_unreadable [OF assms(2), of ?e p IsADirectoryError] by simp
  have differ: "response_500 \<noteq> response_404"
    by code_simp
  have "handle_client ?e s = (s\<lparr>sent := sent s @ [response_500], closed := True\<rparr>, Inr ())"
    if "request_path s = Some path" "path \<noteq> lit ''/''" "str_lstrip (lit ''/'') path = p" for path
    using handle_client_static [OF that(1,2), of ?e] that(3) served
    by (simp add: handle_client_def close_def)
  with served differ show ?thesis by blast
qed

theorem directory_request_500_witness:
  "serve_static_file example_env (connection (ascii ''GET /pub HTTP/1.1'' @ CRLF @ CRLF)) (lit ''pub'')
     = (\<lparr>pending = Inr (ascii ''GET /pub HTTP/1.1'' @ CRLF @ CRLF), send_script = [],
         sent = [response_500], closed = False\<rparr>, Inr ())
   \<and> handle_client example_env (connection (ascii ''GET /pub HTTP/1.1'' @ CRLF @ CRLF))
     = (\<lparr>pending = Inr (ascii ''GET /pub HTTP/1.1'' @ CRLF @ CRLF), send_script = [],
         sent = [response_500], closed = True\<rparr>, Inr ())"
proof -
  let ?s = "connection (ascii ''GET /pub HTTP/1.1'' @ CRLF @ CRLF)"
  have 1: "example_files (lit ''pub'') = Directory" by code_simp
  have 2: "send_script ?s = []" by (simp add: connection_def)
  have 3: "request_path ?s = Some (lit ''/pub'')" by code_simp
  have 4: "lit ''/pub'' \<noteq> lit ''/''" by code_simp
  have 5: "str_lstrip (lit ''/'') (lit ''/pub'') = lit ''pub''" by code_simp
  from directory_request_500 [of example_files "lit ''pub''" ?s example_types, OF 1 2] 3 4 5
  show ?thesis by (simp add: connection_def example_env_def)
qed

section \<open>The serializer\<close>

text \<open>
  C4, as it holds. \<open>generate_response\<close> takes the body as text, formats the status
  code in decimal and encodes the whole response as UTF-8. For every status code of at
  most 4300 decimal digits, and for headers and a body that UTF-8 can encode, the
  result is exactly the bytes of \<open>HTTP/1.1\<close>, a space, the code in decimal, a space,
  the reason phrase and CR LF; then each header in the order supplied, as the UTF-8
  bytes of its name, a colon and a space, the UTF-8 bytes of its value and CR LF; then
  CR LF; then the UTF-8 bytes of the body. The reason phrase is \<open>OK\<close> for 200,
  \<open>Not Found\<close> for 404, \<open>Internal Server Error\<close> for 500 and \<open>Unknown Status\<close>
  for every other code. A status code of more digits raises \<open>ValueError\<close>; with a
  status code that can be formatted, a header or a body that UTF-8 cannot encode raises
  \<open>UnicodeEncodeError\<close>.
\<close>

theorem generate_response_bytes:
  "generate_response code hs body =
     (if \<not> formattable code then Inl ValueError
      else if \<not> (headers_encodable hs \<and> encodable body) then Inl UnicodeEncodeError
      else Inr (ascii ''HTTP/1.1 '' @ utf8_bytes (decimal code) @ ascii '' ''
                  @ ascii (spec_reason_phrase code) @ CRLF
                @ concat (map header_bytes hs)
                @ CRLF
                @ utf8_bytes body))"
  using generate_response_layout [of code hs body]
    generate_response_value_error [of code hs body]
    generate_response_encode_error [of code hs body]
  by auto

theorem generate_response_bytes_witness:
  "generate_response 404 [(lit ''X'', lit ''y'')] [233] =
     Inr (ascii ''HTTP/1.1 404 Not Found'' @ CRLF @ ascii ''X: y'' @ CRLF @ CRLF @ [0xC3, 0xA9])"
proof -
  have 1: "headers_encodable [(lit ''X'', lit ''y'')]"
    by (simp add: headers_encodable_def encodable_def lit_def)
  have 2: "encodable [233]"
    by (simp add: encodable_def)
  have 3: "utf8_bytes (decimal 404) = ascii ''404''"
    by code_simp
  have 4: "header_bytes (lit ''X'', lit ''y'') = ascii ''X: y'' @ CRLF"
    by code_simp
  have 5: "utf8_bytes [233] = [0xC3, 0xA9]"
    by code_simp
  have 6: "formattable 404"
    by (rule formattable_small)
  from generate_response_bytes [of 404 "[(lit ''X'', lit ''y'')]" "[233]"] 1 2 6
  show ?thesis
    by (simp add: 3 4 5 spec_reason_phrase_def ascii_def)
qed

text \<open>
  C4, as the specification states it, fails: the serializer does not produce a byte
  sequence for every body. A body holding the lone surrogate U+D800 makes
  \<open>encode('utf-8')\<close> raise.
\<close>

theorem generate_response_surrogate: "generate_response 200 [] [0xD800] = Inl UnicodeEncodeError"
  by (simp add: generate_response_encode_error formattable_small encodable_def)

section \<open>Malformed requests\<close>

text \<open>
  C5, as it holds. When the request read from a connection decodes to a malformed text,
  \<open>handle_client\<close> tries once to send the 500 response and closes the connection.
  When that send goes through, the 500 response is what the client gets, nothing is
  raised and the accept loop goes on with the connections that follow. When that send
  fails, nothing is sent, the exception leaves \<open>handle_client\<close> and ends the accept
  loop.
\<close>

theorem malformed_request_500:
  assumes "recv s 1024 = Inr raw"
      and "utf8_decode raw = Inr request_data"
      and "malformed request_data"
  shows "handle_client e s = (close (fst (sendall s response_500)), snd (sendall s response_500))
         \<and> (first_send_ok s \<longrightarrow>
               sent (fst (handle_client e s)) = sent s @ [response_500]
               \<and> snd (handle_client e s) = Inr ()
               \<and> main_loop e (Inr s # rest) =
                   (fst (handle_client e s) # fst (main_loop e rest), snd (main_loop e rest)))
         \<and> (\<not> first_send_ok s \<longrightarrow>
               sent (fst (handle_client e s)) = sent s
               \<and> snd (handle_client e s) = Inl ConnectionError
               \<and> main_loop e (Inr s # rest) = ([fst (handle_client e s)], Terminated ConnectionError))"
proof -
  have "handle_client_try e s = (s, Inl ValueError)"
    using assms by (simp add: handle_client_try_def parse_request_malformed)
  then have h: "handle_client e s
                  = (close (fst (sendall s response_500)), snd (sendall s response_500))"
    by (simp add: handle_client_def generate_500 send_response_def split: prod.splits)
  have ok: "sent (fst (sendall s response_500)) = sent s @ [response_500]
            \<and> snd (sendall s response_500) = Inr ()" if "first_send_ok s"
    using that by (auto simp add: first_send_ok_def sendall_def split: list.splits)
  have ko: "sent (fst (sendall s response_500)) = sent s
            \<and> snd (sendall s response_500) = Inl ConnectionError" if "\<not> first_send_ok s"
    using that by (auto simp add: first_send_ok_def sendall_def split: list.splits)
  from h ok ko show ?thesis
    by (cases "first_send_ok s") (simp_all add: close_def split: prod.splits)
qed

theorem malformed_request_500_witness:
  "handle_client example_env (connection (ascii ''GET /'' @ CRLF @ ascii ''Host x'' @ CRLF @ CRLF))
     = (\<lparr>pending = Inr (ascii ''GET /'' @ CRLF @ ascii ''Host x'' @ CRLF @ CRLF), send_script = [],
         sent = [response_500], closed = True\<rparr>, Inr ())
   \<and> main_loop example_env [Inr refused_connection, Inr (connection [])]
     = ([\<lparr>pending = Inr (ascii ''GET /'' @ CRLF @ CRLF), send_script = [], sent = [],
          closed = True\<rparr>], Terminated ConnectionError)"
proof -
  let ?raw = "ascii ''GET /'' @ CRLF @ ascii ''Host x'' @ CRLF @ CRLF"
  let ?text = "lit ''GET /'' @ crlf @ lit ''Host x'' @ crlf @ crlf"
  have 1: "recv (connection ?raw) 1024 = Inr ?raw" by code_simp
  have 2: "utf8_decode ?raw = Inr ?text" by code_simp
  have 3: "malformed ?text" by code_simp
  have 4: "first_send_ok (connection ?raw)" by code_simp
  have 5: "recv refused_connection 1024 = Inr (ascii ''GET /'' @ CRLF @ CRLF)" by code_simp
  have 6: "utf8_decode (ascii ''GET /'' @ CRLF @ CRLF) = Inr (lit ''GET /'' @ crlf @ crlf)" by code_simp
  have 7: "malformed (lit ''GET /'' @ crlf @ crlf)" by code_simp
  have 8: "\<not> first_send_ok refused_connection" by code_simp
  have 9: "sendall (connection ?raw) response_500
             = (\<lparr>pending = Inr ?raw, send_script = [], sent = [response_500], closed = False\<rparr>, Inr ())"
    by (simp add: sendall_def connection_def)
  have 10: "sendall refused_connection response_500
             = (\<lparr>pending = Inr (ascii ''GET /'' @ CRLF @ CRLF), send_script = [], sent = [],
                 closed = False\<rparr>, Inl ConnectionError)"
    by (simp add: sendall_def refused_connection_def)
  from malformed_request_500 [OF 1 2 3, of example_env "[]"] 4
       malformed_request_500 [OF 5 6 7, of example_env "[Inr (connection [])]"] 8
  show ?thesis by (simp add: 9 10 close_def)
qed

text \<open>
  C5, as the specification states it, fails: for a request line of two tokens on a
  connection whose send fails, no 500 response is sent, and the exception ends the
  accept loop before the next connection is accepted.
\<close>

theorem malformed_request_failed_send:
  "recv refused_connection 1024 = Inr (ascii ''GET /'' @ CRLF @ CRLF)
   \<and> utf8_decode (ascii ''GET /'' @ CRLF @ CRLF) = Inr (lit ''GET /'' @ crlf @ crlf)
   \<and> malformed (lit ''GET /'' @ crlf @ crlf)
   \<and> handle_client example_env refused_connection
       = (\<lparr>pending = Inr (ascii ''GET /'' @ CRLF @ CRLF), send_script = [], sent = [],
           closed = True\<rparr>, Inl ConnectionError)
   \<and> main_loop example_env [Inr refused_connection, Inr (connection [])]
       = ([\<lparr>pending = Inr (ascii ''GET /'' @ CRLF @ CRLF), send_script = [], sent = [],
            closed = True\<rparr>], Terminated ConnectionError)"
  by code_simp

section \<open>Headers there and back\<close>

text \<open>
  C7, as it holds. For every header mapping (one entry per name) whose names hold no
  colon followed by a space and whose names and values hold no CR LF, splitting the
  serialized header block at CR LF and parsing the lines with the header loop of
  \<open>parse_request\<close> gives the entries back in the same order; so does parsing a whole
  request that carries the block.
\<close>

theorem header_block_roundtrip:
  assumes "distinct (map fst hs)" and "list_all separable hs"
  shows "parse_headers (str_split crlf (header_lines hs)) [] = Inr hs
         \<and> parse_request (lit ''GET / HTTP/1.1'' @ crlf @ header_lines hs @ crlf)
             = Inr (lit ''GET'', lit ''/'', lit ''HTTP/1.1'', hs)"
proof -
  have a: "str_split crlf (header_lines hs) = map header_line hs @ [[]]"
    using header_lines_split [OF assms(2), of "[]"] by simp
  have first: "parse_headers (str_split crlf (header_lines hs)) [] = Inr hs"
    unfolding a using parse_header_lines [OF assms(2), of "[]" "[]"] assms(1) by simp
  have nc: "\<not> contains [13, 10] (lit ''GET / HTTP/1.1'')" by code_simp
  have "str_split crlf (lit ''GET / HTTP/1.1'' @ crlf @ header_lines hs @ crlf)
          = lit ''GET / HTTP/1.1'' # str_split crlf (header_lines hs @ crlf)"
    using str_split_at_sep [of 13 10 "lit ''GET / HTTP/1.1''", OF _ nc] by (simp add: crlf_def)
  also have "str_split crlf (header_lines hs @ crlf) = map header_line hs @ [[], []]"
    using header_lines_split [OF assms(2), of crlf] by (simp add: crlf_def)
  finally have lines: "str_split crlf (lit ''GET / HTTP/1.1'' @ crlf @ header_lines hs @ crlf)
                         = lit ''GET / HTTP/1.1'' # map header_line hs @ [[], []]" .
  have tokens: "str_split space (lit ''GET / HTTP/1.1'') = [lit ''GET'', lit ''/'', lit ''HTTP/1.1'']"
    by code_simp
  have "parse_headers (map header_line hs @ [[], []]) [] = Inr hs"
    using parse_header_lines [OF assms(2), of "[]" "[[]]"] assms(1) by simp
  then have "parse_request (lit ''GET / HTTP/1.1'' @ crlf @ header_lines hs @ crlf)
               = Inr (lit ''GET'', lit ''/'', lit ''HTTP/1.1'', hs)"
    by (simp add: parse_request_def lines tokens)
  with first show ?thesis by simp
qed

theorem header_block_roundtrip_witness:
  "parse_headers
     (str_split crlf (header_lines [(lit ''Host'', lit ''a:b''), (lit ''X-Note'', lit ''1: 2'')])) []
   = Inr [(lit ''Host'', lit ''a:b''), (lit ''X-Note'', lit ''1: 2'')]"
proof -
  let ?hs = "[(lit ''Host'', lit ''a:b''), (lit ''X-Note'', lit ''1: 2'')]"
  have 1: "distinct (map fst ?hs)" by code_simp
  have 2: "list_all separable ?hs" by code_simp
  from header_block_roundtrip [OF 1 2] show ?thesis by simp
qed

text \<open>
  C7, as the specification states it, fails: the header named \<open>a: b\<close> with the value
  \<open>c\<close> comes back as the header \<open>a\<close> with the value \<open>b: c\<close>.
\<close>

theorem header_name_with_separator:
  "distinct (map fst colon_in_name)
   \<and> parse_headers (str_split crlf (header_lines colon_in_name)) [] = Inr [(lit ''a'', lit ''b: c'')]
   \<and> [(lit ''a'', lit ''b: c'')] \<noteq> colon_in_name"
  by code_simp

section \<open>Routing\<close>

text \<open>
  C8, as it holds. For every request path other than exactly \<open>/\<close>, the router hands
  the path without all of its leading slashes to the static file handler: what is
  handed over is the path less its longest prefix of slashes, and does not start with a
  slash.
\<close>

theorem static_delegation:
  assumes "request_path s = Some path" and "path \<noteq> lit ''/''"
  shows "handle_client_try e s = serve_static_file e s (str_lstrip (lit ''/'') path)
         \<and> path = takeWhile (\<lambda>c. c = 47) path @ str_lstrip (lit ''/'') path
         \<and> \<not> prefix (lit ''/'') (str_lstrip (lit ''/'') path)"
proof -
  have "\<not> prefix [47] (dropWhile (\<lambda>c. c = 47) path)"
    by (metis (mono_tags, lifting) append_Cons dropWhile_eq_Cons_conv prefix_def)
  then show ?thesis
    using handle_client_static [OF assms, of e]
    by (simp add: str_lstrip_def lit_def)
qed

theorem static_delegation_witness:
  "handle_client_try example_env (connection (ascii ''GET //sample.txt HTTP/1.1'' @ CRLF @ CRLF))
     = serve_static_file example_env (connection (ascii ''GET //sample.txt HTTP/1.1'' @ CRLF @ CRLF))
         (lit ''sample.txt'')"
proof -
  let ?s = "connection (ascii ''GET //sample.txt HTTP/1.1'' @ CRLF @ CRLF)"
  have 1: "request_path ?s = Some (lit ''//sample.txt'')" by code_simp
  have 2: "lit ''//sample.txt'' \<noteq> lit ''/''" by code_simp
  have 3: "str_lstrip (lit ''/'') (lit ''//sample.txt'') = lit ''sample.txt''" by code_simp
  from static_delegation [OF 1 2, of example_env]
  show ?thesis by (simp add: 3)
qed

text \<open>
  C8, as the specification states it, fails: for the path \<open>//sample.txt\<close> the router
  does not do what the static file handler does on \<open>/sample.txt\<close>, the path less a
  single slash (it serves the file \<open>sample.txt\<close>, where \<open>/sample.txt\<close> does not
  exist).
\<close>

theorem double_slash_counterexample:
  "request_path (connection (ascii ''GET //sample.txt HTTP/1.1'' @ CRLF @ CRLF))
     = Some (lit ''//sample.txt'')
   \<and> handle_client_try example_env (connection (ascii ''GET //sample.txt HTTP/1.1'' @ CRLF @ CRLF))
     \<noteq> serve_static_file example_env (connection (ascii ''GET //sample.txt HTTP/1.1'' @ CRLF @ CRLF))
         (spec_strip_single_slash (lit ''//sample.txt''))"
  by code_simp

section \<open>Content types\<close>

text \<open>
  C9, as it holds. For every path that holds no colon and does not begin with a slash,
  a space or a control character (anything up to U+0020), \<open>get_content_type\<close> does not fail, and what it
  returns is decided by the extension: \<open>application/octet-stream\<close> when the last
  component of the path has no dot (the table holding nothing for the empty extension);
  and for a path that ends in a dot and an extension, after a name that is not made of
  dots alone, the type the table gives for the extension in lower case, or
  \<open>application/octet-stream\<close> when the table gives none or an empty one (for an
  extension that is neither short for two, as \<open>.tgz\<close>, nor that of an encoding, as
  \<open>.gz\<close>).
\<close>

theorem content_type_resolution:
  assumes "plain_path file_path"
  shows "get_content_type e file_path
           = Inr (type_or_default (guess_file_type (mime_library e) file_path))
         \<and> (46 \<notin> set (last_component file_path) \<and> types_map (mime_library e) [] = None \<longrightarrow>
               get_content_type e file_path = Inr (lit ''application/octet-stream''))
         \<and> (\<forall>b x. file_path = b @ 46 # x \<and> 46 \<notin> set x \<and> 47 \<notin> set x
                  \<and> list_ex (\<lambda>c. c \<noteq> 46) (last_component b)
                  \<and> map_of suffix_map (str_lower (mime_library e) (46 # x)) = None
                  \<and> map_of encodings_map (46 # x) = None
               \<longrightarrow> get_content_type e file_path
                     = Inr (type_or_default (types_map (mime_library e)
                                                (str_lower (mime_library e) (46 # x)))))"
proof -
  let ?lib = "mime_library e"
  have general: "get_content_type e file_path = Inr (type_or_default (guess_file_type ?lib file_path))"
    using guess_type_plain [OF assms, of ?lib] by (rule get_content_type_value)
  have absent: "get_content_type e file_path = Inr (lit ''application/octet-stream'')"
    if "46 \<notin> set (last_component file_path)" "types_map ?lib [] = None"
    using general guess_file_type_no_extension [OF that(1), of ?lib] that(2)
    by (simp add: type_or_default_def)
  have known: "get_content_type e file_path
                 = Inr (type_or_default (types_map ?lib (str_lower ?lib (46 # x))))"
    if "file_path = b @ 46 # x" "46 \<notin> set x" "47 \<notin> set x"
       "list_ex (\<lambda>c. c \<noteq> 46) (last_component b)"
       "map_of suffix_map (str_lower ?lib (46 # x)) = None" "map_of encodings_map (46 # x) = None"
    for b x
  proof -
    have "splitext file_path = (b, 46 # x)"
      unfolding that(1) using that(2-4) by (rule splitext_dot)
    from guess_file_type_plain_extension [OF this that(5,6)] general show ?thesis by simp
  qed
  from general absent known show ?thesis by blast
qed

theorem content_type_resolution_witness:
  "get_content_type example_env (lit ''sample.txt'') = Inr (lit ''text/plain'')
   \<and> get_content_type example_env (lit ''a.bin'') = Inr (lit ''application/octet-stream'')
   \<and> get_content_type example_env (lit ''Makefile'') = Inr (lit ''application/octet-stream'')"
proof -
  let ?lib = "mime_library example_env"
  have p: "plain_path (lit ''sample.txt'')" "plain_path (lit ''a.bin'')" "plain_path (lit ''Makefile'')"
    by code_simp+
  have text_file: "lit ''sample.txt'' = lit ''sample'' @ 46 # lit ''txt''"
    "46 \<notin> set (lit ''txt'')" "47 \<notin> set (lit ''txt'')"
    "list_ex (\<lambda>c. c \<noteq> 46) (last_component (lit ''sample''))"
    "map_of suffix_map (str_lower ?lib (46 # lit ''txt'')) = None"
    "map_of encodings_map (46 # lit ''txt'') = None"
    "type_or_default (types_map ?lib (str_lower ?lib (46 # lit ''txt''))) = lit ''text/plain''"
    by code_simp+
  have bin_file: "lit ''a.bin'' = lit ''a'' @ 46 # lit ''bin''"
    "46 \<notin> set (lit ''bin'')" "47 \<notin> set (lit ''bin'')"
    "list_ex (\<lambda>c. c \<noteq> 46) (last_component (lit ''a''))"
    "map_of suffix_map (str_lower ?lib (46 # lit ''bin'')) = None"
    "map_of encodings_map (46 # lit ''bin'') = None"
    "type_or_default (types_map ?lib (str_lower ?lib (46 # lit ''bin'')))
       = lit ''application/octet-stream''"
    by code_simp+
  have makefile: "46 \<notin> set (last_component (lit ''Makefile''))" "types_map ?lib [] = None"
    by code_simp+
  from content_type_resolution [OF p(1), of example_env] text_file
       content_type_resolution [OF p(2), of example_env] bin_file
       content_type_resolution [OF p(3), of example_env] makefile
  show ?thesis by metis
qed

text \<open>
  C9, as the specification states it, fails: \<open>mimetypes.guess_type\<close> reads its
  argument as a URL. For \<open>ab://[x.txt\<close> it raises \<open>ValueError\<close>, so the resolver
  fails; for \<open>data:text/html,abc\<close>, which has no extension, the resolver returns
  \<open>text/html\<close> and not \<open>application/octet-stream\<close>.
\<close>

theorem resolver_reads_urls:
  "get_content_type example_env (lit ''ab://[x.txt'') = Inl ValueError
   \<and> get_content_type example_env (lit ''data:text/html,abc'') = Inr (lit ''text/html'')
   \<and> snd (splitext (lit ''data:text/html,abc'')) = []"
  by code_simp

end
